theory Spec2Isabelle
  imports Main
begin

section \<open>Python values and list primitives used by the agent selectors\<close>

text \<open>
  The selectors of \<^verbatim>\<open>pettingzoo/utils/agent_selector.py\<close> are small state machines over
  Python lists. Every Python operation they use that can raise is modelled with a result
  of type \<open>error + 'a\<close>: \<open>Inl\<close> carries the exception, \<open>Inr\<close> the value. A
  method that writes fields returns, with the exception as with the value, the object as
  the call leaves it: an assignment made before the statement that raises stays made, and
  a caller that catches the exception goes on with that object.
\<close>

datatype error = ZeroDivisionError | IndexError | ValueError

text \<open>
  The first selector is typed \<^verbatim>\<open>list[Any]\<close> and stores the integer \<^verbatim>\<open>0\<close> in
  \<^verbatim>\<open>selected_agent\<close> before the first call, so its agents are Python values: \<^verbatim>\<open>None\<close>,
  integers and strings, for which structural equality is Python's \<^verbatim>\<open>==\<close>.
\<close>

datatype pyval = PyNone | PyInt int | PyStr string

text \<open>\<^verbatim>\<open>xs[i]\<close>: indices \<open>-len \<le> i < 0\<close> count from the end, anything out of range raises.\<close>

definition py_getitem :: "'a list \<Rightarrow> int \<Rightarrow> error + 'a" where
  "py_getitem xs i =
     (let n = int (length xs) in
      if 0 \<le> i \<and> i < n then Inr (xs ! nat i)
      else if - n \<le> i \<and> i < 0 then Inr (xs ! nat (n + i))
      else Inl IndexError)"

text \<open>\<^verbatim>\<open>a % b\<close> on Python integers: the sign follows the divisor, zero divisor raises.\<close>

definition py_mod :: "int \<Rightarrow> int \<Rightarrow> error + int" where
  "py_mod a b = (if b = 0 then Inl ZeroDivisionError else Inr (a mod b))"

text \<open>\<^verbatim>\<open>xs.index(x)\<close>: the first position of \<open>x\<close>, \<^verbatim>\<open>ValueError\<close> when absent.\<close>

fun py_index :: "'a list \<Rightarrow> 'a \<Rightarrow> error + int" where
  "py_index [] x = Inl ValueError"
| "py_index (y # ys) x =
     (if y = x then Inr 0
      else (case py_index ys x of Inl e \<Rightarrow> Inl e | Inr i \<Rightarrow> Inr (i + 1)))"

text \<open>\<^verbatim>\<open>enumerate(xs)\<close> and \<^verbatim>\<open>s.startswith(p)\<close>.\<close>

definition py_enumerate :: "'a list \<Rightarrow> (int \<times> 'a) list" where
  "py_enumerate xs = map (\<lambda>(i, x). (int i, x)) (List.enumerate 0 xs)"

definition startswith :: "string \<Rightarrow> string \<Rightarrow> bool" where
  "startswith s p = (take (length p) s = p)"

section \<open>AgentSelector: the fixed-order cycler\<close>

record AgentSelector =
  agent_order :: "pyval list"
  current_agent :: int
  selected_agent :: pyval

text \<open>\<^verbatim>\<open>reinit\<close> stores the order as given (no check) and zeroes both other fields.\<close>

definition AgentSelector_reinit :: "AgentSelector \<Rightarrow> pyval list \<Rightarrow> AgentSelector" where
  "AgentSelector_reinit self order =
     self\<lparr>agent_order := order, current_agent := 0, selected_agent := PyInt 0\<rparr>"

definition AgentSelector_init :: "pyval list \<Rightarrow> AgentSelector" where
  "AgentSelector_init order =
     AgentSelector_reinit \<lparr>agent_order = [], current_agent = 0, selected_agent = PyNone\<rparr> order"

definition AgentSelector_next ::
  "AgentSelector \<Rightarrow> (error \<times> AgentSelector) + (pyval \<times> AgentSelector)" where
  "AgentSelector_next self =
     (case py_mod (current_agent self + 1) (int (length (agent_order self))) of
        Inl e \<Rightarrow> Inl (e, self)
      | Inr c \<Rightarrow>
          (case py_getitem (agent_order self) (c - 1) of
             Inl e \<Rightarrow> Inl (e, self\<lparr>current_agent := c\<rparr>)
           | Inr a \<Rightarrow> Inr (a, self\<lparr>current_agent := c, selected_agent := a\<rparr>)))"

text \<open>\<^verbatim>\<open>reset\<close> has reinitialised the fields when its \<^verbatim>\<open>next()\<close> raises.\<close>

definition AgentSelector_reset ::
  "AgentSelector \<Rightarrow> (error \<times> AgentSelector) + (pyval \<times> AgentSelector)" where
  "AgentSelector_reset self = AgentSelector_next (AgentSelector_reinit self (agent_order self))"

definition AgentSelector_is_last :: "AgentSelector \<Rightarrow> error + bool" where
  "AgentSelector_is_last self =
     (case py_getitem (agent_order self) (- 1) of
        Inl e \<Rightarrow> Inl e
      | Inr a \<Rightarrow> Inr (selected_agent self = a))"

definition AgentSelector_is_first :: "AgentSelector \<Rightarrow> error + bool" where
  "AgentSelector_is_first self =
     (case py_getitem (agent_order self) 0 of
        Inl e \<Rightarrow> Inl e
      | Inr a \<Rightarrow> Inr (selected_agent self = a))"

section \<open>AgentSelector2: the manager-preemptible cycler\<close>

record AgentSelector2 =
  agent_order2 :: "string list"
  manager_index2 :: int
  workstation_indices2 :: "int list"
  coordination_index2 :: int
  current_index2 :: int
  selected_agent2 :: "string option"

text \<open>The list comprehension over \<^verbatim>\<open>enumerate(agent_order)\<close> shared by all constructors.\<close>

definition workstation_indices_of :: "string list \<Rightarrow> int list" where
  "workstation_indices_of order =
     map fst (filter (\<lambda>(i, agent). startswith agent ''workstation'') (py_enumerate order))"

text \<open>
  \<^verbatim>\<open>reinit\<close> assigns field by field and \<^verbatim>\<open>index\<close> raises \<^verbatim>\<open>ValueError\<close> when a
  role name is absent. The order is stored before the manager is looked up, and the
  manager and workstation indices before coordination is looked up: a \<^verbatim>\<open>reinit\<close> that
  raises leaves the new order with role indices of the old one.
\<close>

definition AgentSelector2_reinit ::
  "AgentSelector2 \<Rightarrow> string list \<Rightarrow> (error \<times> AgentSelector2) + AgentSelector2" where
  "AgentSelector2_reinit self order =
     (case py_index order ''manager'' of
        Inl e \<Rightarrow> Inl (e, self\<lparr>agent_order2 := order\<rparr>)
      | Inr m \<Rightarrow>
          (case py_index order ''coordination'' of
             Inl e \<Rightarrow>
               Inl (e, self\<lparr>agent_order2 := order, manager_index2 := m,
                            workstation_indices2 := workstation_indices_of order\<rparr>)
           | Inr c \<Rightarrow>
               Inr (self\<lparr>agent_order2 := order, manager_index2 := m,
                         workstation_indices2 := workstation_indices_of order,
                         coordination_index2 := c, current_index2 := 0,
                         selected_agent2 := None\<rparr>)))"

text \<open>
  \<^verbatim>\<open>__init__\<close> runs the same assignments on a new object; when it raises there is no
  object.
\<close>

definition AgentSelector2_init :: "string list \<Rightarrow> error + AgentSelector2" where
  "AgentSelector2_init order =
     (case py_index order ''manager'' of
        Inl e \<Rightarrow> Inl e
      | Inr m \<Rightarrow>
          (case py_index order ''coordination'' of
             Inl e \<Rightarrow> Inl e
           | Inr c \<Rightarrow>
               Inr \<lparr>agent_order2 = order, manager_index2 = m,
                    workstation_indices2 = workstation_indices_of order,
                    coordination_index2 = c, current_index2 = 0,
                    selected_agent2 = None\<rparr>))"

text \<open>
  \<^verbatim>\<open>reset\<close> zeroes the position, then reads the manager, and returns it leaving
  \<^verbatim>\<open>selected_agent\<close> as it was.
\<close>

definition AgentSelector2_reset ::
  "AgentSelector2 \<Rightarrow> (error \<times> AgentSelector2) + (string \<times> AgentSelector2)" where
  "AgentSelector2_reset self =
     (case py_getitem (agent_order2 self) (manager_index2 self) of
        Inl e \<Rightarrow> Inl (e, self\<lparr>current_index2 := 0\<rparr>)
      | Inr a \<Rightarrow> Inr (a, self\<lparr>current_index2 := 0\<rparr>))"

text \<open>In \<^verbatim>\<open>next\<close> every read that can raise comes before the first assignment.\<close>

definition AgentSelector2_next ::
  "AgentSelector2 \<Rightarrow> bool \<Rightarrow> bool \<Rightarrow> string list \<Rightarrow>
     (error \<times> AgentSelector2) + (string \<times> AgentSelector2)" where
  "AgentSelector2_next self manager_act coordination_act active_agents =
     (if manager_act \<and> ''manager'' \<in> set active_agents then
        (case py_getitem (agent_order2 self) (manager_index2 self) of
           Inl e \<Rightarrow> Inl (e, self)
         | Inr a \<Rightarrow> Inr (a, self\<lparr>selected_agent2 := Some a, current_index2 := 0\<rparr>))
      else
        (let total_agents_in_cycle = int (length (workstation_indices2 self)) + 1 in
         case py_mod (current_index2 self) total_agents_in_cycle of
           Inl e \<Rightarrow> Inl (e, self)
         | Inr cycle_index \<Rightarrow>
             (case (if cycle_index < int (length (workstation_indices2 self)) then
                      (case py_getitem (workstation_indices2 self) cycle_index of
                         Inl e \<Rightarrow> Inl e
                       | Inr workstation_idx \<Rightarrow> py_getitem (agent_order2 self) workstation_idx)
                    else py_getitem (agent_order2 self) (coordination_index2 self)) of
                Inl e \<Rightarrow> Inl (e, self)
              | Inr a \<Rightarrow>
                  Inr (a, self\<lparr>selected_agent2 := Some a,
                               current_index2 := current_index2 self + 1\<rparr>))))"

definition AgentSelector2_is_last :: "AgentSelector2 \<Rightarrow> error + bool" where
  "AgentSelector2_is_last self =
     (case py_getitem (agent_order2 self) (coordination_index2 self) of
        Inl e \<Rightarrow> Inl e
      | Inr a \<Rightarrow> Inr (selected_agent2 self = Some a))"

definition AgentSelector2_is_first :: "AgentSelector2 \<Rightarrow> error + bool" where
  "AgentSelector2_is_first self =
     (case py_getitem (agent_order2 self) (manager_index2 self) of
        Inl e \<Rightarrow> Inl e
      | Inr a \<Rightarrow> Inr (selected_agent2 self = Some a))"

section \<open>AgentSelector3: the dynamic active-set cycler\<close>

record AgentSelector3 =
  agent_order3 :: "string list"
  manager_index3 :: int
  workstation_indices3 :: "int list"
  coordination_index3 :: int
  current_index3 :: int
  selected_agent3 :: "string option"
  previous_agents_in_cycle_indices :: "int list"

definition AgentSelector3_reinit ::
  "AgentSelector3 \<Rightarrow> string list \<Rightarrow> (error \<times> AgentSelector3) + AgentSelector3" where
  "AgentSelector3_reinit self order =
     (case py_index order ''manager'' of
        Inl e \<Rightarrow> Inl (e, self\<lparr>agent_order3 := order\<rparr>)
      | Inr m \<Rightarrow>
          (case py_index order ''coordination'' of
             Inl e \<Rightarrow>
               Inl (e, self\<lparr>agent_order3 := order, manager_index3 := m,
                            workstation_indices3 := workstation_indices_of order\<rparr>)
           | Inr c \<Rightarrow>
               Inr (self\<lparr>agent_order3 := order, manager_index3 := m,
                         workstation_indices3 := workstation_indices_of order,
                         coordination_index3 := c, current_index3 := 0,
                         selected_agent3 := None,
                         previous_agents_in_cycle_indices := []\<rparr>)))"

definition AgentSelector3_init :: "string list \<Rightarrow> error + AgentSelector3" where
  "AgentSelector3_init order =
     (case py_index order ''manager'' of
        Inl e \<Rightarrow> Inl e
      | Inr m \<Rightarrow>
          (case py_index order ''coordination'' of
             Inl e \<Rightarrow> Inl e
           | Inr c \<Rightarrow>
               Inr \<lparr>agent_order3 = order, manager_index3 = m,
                    workstation_indices3 = workstation_indices_of order,
                    coordination_index3 = c, current_index3 = 0,
                    selected_agent3 = None,
                    previous_agents_in_cycle_indices = []\<rparr>))"

text \<open>\<^verbatim>\<open>reset\<close> zeroes the position before it reads the manager.\<close>

definition AgentSelector3_reset ::
  "AgentSelector3 \<Rightarrow> (error \<times> AgentSelector3) + (string \<times> AgentSelector3)" where
  "AgentSelector3_reset self =
     (case py_getitem (agent_order3 self) (manager_index3 self) of
        Inl e \<Rightarrow> Inl (e, self\<lparr>current_index3 := 0\<rparr>)
      | Inr a \<Rightarrow>
          Inr (a, self\<lparr>current_index3 := 0, selected_agent3 := Some a,
                       previous_agents_in_cycle_indices := []\<rparr>))"

text \<open>
  The comprehension \<^verbatim>\<open>[idx for i, idx in enumerate(ws) if workstation_act[i] == 1]\<close>:
  every position of the workstation list reads \<^verbatim>\<open>workstation_act[i]\<close>, which raises
  when the vector is too short; the flags are integers compared with \<^verbatim>\<open>1\<close>.
\<close>

fun active_of :: "(int \<times> int) list \<Rightarrow> int list \<Rightarrow> error + int list" where
  "active_of [] workstation_act = Inr []"
| "active_of ((i, idx) # rest) workstation_act =
     (case py_getitem workstation_act i of
        Inl e \<Rightarrow> Inl e
      | Inr flag \<Rightarrow>
          (case active_of rest workstation_act of
             Inl e \<Rightarrow> Inl e
           | Inr acc \<Rightarrow> Inr (if flag = 1 then idx # acc else acc)))"

definition active_workstation_indices :: "AgentSelector3 \<Rightarrow> int list \<Rightarrow> error + int list" where
  "active_workstation_indices self workstation_act =
     active_of (py_enumerate (workstation_indices3 self)) workstation_act"

text \<open>The eligible cycle built from the active workstations, or the fallback cycle.\<close>

definition agents_in_cycle_indices :: "AgentSelector3 \<Rightarrow> int list \<Rightarrow> int list" where
  "agents_in_cycle_indices self active =
     (if active \<noteq> [] then active @ [coordination_index3 self]
      else workstation_indices3 self @ [coordination_index3 self] @ [manager_index3 self])"

text \<open>The comparison with the recorded cycle: a different list zeroes the position.\<close>

definition detect_change :: "AgentSelector3 \<Rightarrow> int list \<Rightarrow> AgentSelector3" where
  "detect_change self cyc =
     (if cyc \<noteq> previous_agents_in_cycle_indices self
      then self\<lparr>current_index3 := 0, previous_agents_in_cycle_indices := cyc\<rparr>
      else self)"

text \<open>
  In \<^verbatim>\<open>next\<close> the comprehension runs before any assignment; the reads after the
  comparison with the recorded cycle find the position and the recorded cycle already
  updated.
\<close>

definition AgentSelector3_next ::
  "AgentSelector3 \<Rightarrow> bool \<Rightarrow> int list \<Rightarrow>
     (error \<times> AgentSelector3) + (string option \<times> AgentSelector3)" where
  "AgentSelector3_next self manager_act workstation_act =
     (if manager_act then
        (case py_getitem (agent_order3 self) (manager_index3 self) of
           Inl e \<Rightarrow> Inl (e, self)
         | Inr a \<Rightarrow>
             Inr (Some a, self\<lparr>selected_agent3 := Some a, current_index3 := 0,
                               previous_agents_in_cycle_indices := []\<rparr>))
      else
        (case active_workstation_indices self workstation_act of
           Inl e \<Rightarrow> Inl (e, self)
         | Inr active \<Rightarrow>
             (let cyc = agents_in_cycle_indices self active in
              if cyc = [] then Inr (None, self\<lparr>selected_agent3 := None\<rparr>)
              else
                (let self1 = detect_change self cyc in
                 case py_mod (current_index3 self1) (int (length cyc)) of
                   Inl e \<Rightarrow> Inl (e, self1)
                 | Inr cycle_index \<Rightarrow>
                     (case py_getitem cyc cycle_index of
                        Inl e \<Rightarrow> Inl (e, self1)
                      | Inr selected_idx \<Rightarrow>
                          (case py_getitem (agent_order3 self1) selected_idx of
                             Inl e \<Rightarrow> Inl (e, self1)
                           | Inr a \<Rightarrow>
                               Inr (Some a,
                                    self1\<lparr>selected_agent3 := Some a,
                                          current_index3 := current_index3 self1 + 1\<rparr>)))))))"

definition AgentSelector3_is_last :: "AgentSelector3 \<Rightarrow> bool" where
  "AgentSelector3_is_last self = (selected_agent3 self = Some ''coordination'')"

definition AgentSelector3_is_first :: "AgentSelector3 \<Rightarrow> bool" where
  "AgentSelector3_is_first self = (selected_agent3 self = Some ''manager'')"

section \<open>Equality of selectors\<close>

text \<open>
  \<^verbatim>\<open>__eq__\<close> returns \<^verbatim>\<open>NotImplemented\<close> when \<^verbatim>\<open>isinstance\<close> fails, so the other
  operand is a selector object of any of the three classes. No class derives from
  another: an \<^verbatim>\<open>AgentSelector3\<close> is not an instance of \<^verbatim>\<open>AgentSelector2\<close>.
\<close>

datatype eq_result = NotImplemented | PyBool bool

datatype selector_obj =
  IsAgentSelector AgentSelector
| IsAgentSelector2 AgentSelector2
| IsAgentSelector3 AgentSelector3

definition AgentSelector_eq :: "AgentSelector \<Rightarrow> selector_obj \<Rightarrow> eq_result" where
  "AgentSelector_eq self other =
     (case other of
        IsAgentSelector other1 \<Rightarrow>
          PyBool (agent_order self = agent_order other1
                  \<and> current_agent self = current_agent other1
                  \<and> selected_agent self = selected_agent other1)
      | _ \<Rightarrow> NotImplemented)"

definition AgentSelector2_eq :: "AgentSelector2 \<Rightarrow> selector_obj \<Rightarrow> eq_result" where
  "AgentSelector2_eq self other =
     (case other of
        IsAgentSelector2 other2 \<Rightarrow>
          PyBool (agent_order2 self = agent_order2 other2
                  \<and> current_index2 self = current_index2 other2
                  \<and> selected_agent2 self = selected_agent2 other2)
      | _ \<Rightarrow> NotImplemented)"

text \<open>The third class tests \<^verbatim>\<open>isinstance(other, AgentSelector2)\<close> as the second does.\<close>

definition AgentSelector3_eq :: "AgentSelector3 \<Rightarrow> selector_obj \<Rightarrow> eq_result" where
  "AgentSelector3_eq self other =
     (case other of
        IsAgentSelector2 other2 \<Rightarrow>
          PyBool (agent_order3 self = agent_order2 other2
                  \<and> current_index3 self = current_index2 other2
                  \<and> selected_agent3 self = selected_agent2 other2)
      | _ \<Rightarrow> NotImplemented)"

text \<open>
  Python's \<^verbatim>\<open>a == b\<close>: the left operand's \<^verbatim>\<open>__eq__\<close>, then the right operand's when
  the left one returns \<^verbatim>\<open>NotImplemented\<close>, then identity of the two objects. An object
  is a pair of its identity (\<^verbatim>\<open>id(obj)\<close>) and its contents.
\<close>

fun dunder_eq :: "selector_obj \<Rightarrow> selector_obj \<Rightarrow> eq_result" where
  "dunder_eq (IsAgentSelector self) other = AgentSelector_eq self other"
| "dunder_eq (IsAgentSelector2 self) other = AgentSelector2_eq self other"
| "dunder_eq (IsAgentSelector3 self) other = AgentSelector3_eq self other"

definition py_eq :: "nat \<times> selector_obj \<Rightarrow> nat \<times> selector_obj \<Rightarrow> bool" where
  "py_eq a b =
     (case dunder_eq (snd a) (snd b) of
        PyBool r \<Rightarrow> r
      | NotImplemented \<Rightarrow>
          (case dunder_eq (snd b) (snd a) of
             PyBool r \<Rightarrow> r
           | NotImplemented \<Rightarrow> fst a = fst b))"

section \<open>Call sequences\<close>

text \<open>
  A caller drives a selector by a sequence of method calls. \<open>run_calls\<close> is the run in
  which every call returns: it threads the object through the calls, collects what they
  return and ends with the first exception, which nobody catches.
\<close>

fun run_calls ::
  "('c \<Rightarrow> 's \<Rightarrow> (error \<times> 's) + ('r \<times> 's)) \<Rightarrow> 'c list \<Rightarrow> 's \<Rightarrow> error + ('r list \<times> 's)" where
  "run_calls f [] s = Inr ([], s)"
| "run_calls f (c # cs) s =
     (case f c s of
        Inl (e, s') \<Rightarrow> Inl e
      | Inr (r, s') \<Rightarrow>
          (case run_calls f cs s' of
             Inl e \<Rightarrow> Inl e
           | Inr (rs, s'') \<Rightarrow> Inr (r # rs, s'')))"

text \<open>
  \<open>run_caught\<close> is the run of a caller that catches every exception and goes on with
  the object as the failed call left it. It records each call's exception or value.
\<close>

fun run_caught ::
  "('c \<Rightarrow> 's \<Rightarrow> (error \<times> 's) + ('r \<times> 's)) \<Rightarrow> 'c list \<Rightarrow> 's \<Rightarrow> (error + 'r) list \<times> 's" where
  "run_caught f [] s = ([], s)"
| "run_caught f (c # cs) s =
     (case f c s of
        Inl (e, s') \<Rightarrow> (case run_caught f cs s' of (rs, s'') \<Rightarrow> (Inl e # rs, s''))
      | Inr (r, s') \<Rightarrow> (case run_caught f cs s' of (rs, s'') \<Rightarrow> (Inr r # rs, s'')))"

datatype call1 = Reinit1 "pyval list" | Reset1 | Next1

fun AgentSelector_call ::
  "call1 \<Rightarrow> AgentSelector \<Rightarrow> (error \<times> AgentSelector) + (pyval \<times> AgentSelector)" where
  "AgentSelector_call (Reinit1 order) self = Inr (PyNone, AgentSelector_reinit self order)"
| "AgentSelector_call Reset1 self = AgentSelector_reset self"
| "AgentSelector_call Next1 self = AgentSelector_next self"

definition AgentSelector_run ::
  "call1 list \<Rightarrow> AgentSelector \<Rightarrow> error + (pyval list \<times> AgentSelector)" where
  "AgentSelector_run = run_calls AgentSelector_call"

datatype call2 = Reinit2 "string list" | Reset2 | Next2 bool bool "string list"

fun AgentSelector2_call ::
  "call2 \<Rightarrow> AgentSelector2 \<Rightarrow> (error \<times> AgentSelector2) + (string option \<times> AgentSelector2)" where
  "AgentSelector2_call (Reinit2 order) self =
     (case AgentSelector2_reinit self order of Inl es \<Rightarrow> Inl es | Inr s \<Rightarrow> Inr (None, s))"
| "AgentSelector2_call Reset2 self =
     (case AgentSelector2_reset self of Inl es \<Rightarrow> Inl es | Inr (a, s) \<Rightarrow> Inr (Some a, s))"
| "AgentSelector2_call (Next2 manager_act coordination_act active_agents) self =
     (case AgentSelector2_next self manager_act coordination_act active_agents of
        Inl es \<Rightarrow> Inl es
      | Inr (a, s) \<Rightarrow> Inr (Some a, s))"

definition AgentSelector2_run ::
  "call2 list \<Rightarrow> AgentSelector2 \<Rightarrow> error + (string option list \<times> AgentSelector2)" where
  "AgentSelector2_run = run_calls AgentSelector2_call"

datatype call3 = Reinit3 "string list" | Reset3 | Next3 bool "int list"

fun AgentSelector3_call ::
  "call3 \<Rightarrow> AgentSelector3 \<Rightarrow> (error \<times> AgentSelector3) + (string option \<times> AgentSelector3)" where
  "AgentSelector3_call (Reinit3 order) self =
     (case AgentSelector3_reinit self order of Inl es \<Rightarrow> Inl es | Inr s \<Rightarrow> Inr (None, s))"
| "AgentSelector3_call Reset3 self =
     (case AgentSelector3_reset self of Inl es \<Rightarrow> Inl es | Inr (a, s) \<Rightarrow> Inr (Some a, s))"
| "AgentSelector3_call (Next3 manager_act workstation_act) self =
     AgentSelector3_next self manager_act workstation_act"

definition AgentSelector3_run ::
  "call3 list \<Rightarrow> AgentSelector3 \<Rightarrow> error + (string option list \<times> AgentSelector3)" where
  "AgentSelector3_run = run_calls AgentSelector3_call"

text \<open>
  A selector constructed with an order and then driven by a call sequence in which every
  call returns.
\<close>

definition AgentSelector_drive ::
  "pyval list \<Rightarrow> call1 list \<Rightarrow> error + (pyval list \<times> AgentSelector)" where
  "AgentSelector_drive order calls = AgentSelector_run calls (AgentSelector_init order)"

definition AgentSelector2_drive ::
  "string list \<Rightarrow> call2 list \<Rightarrow> error + (string option list \<times> AgentSelector2)" where
  "AgentSelector2_drive order calls =
     (case AgentSelector2_init order of
        Inl e \<Rightarrow> Inl e
      | Inr s \<Rightarrow> AgentSelector2_run calls s)"

definition AgentSelector3_drive ::
  "string list \<Rightarrow> call3 list \<Rightarrow> error + (string option list \<times> AgentSelector3)" where
  "AgentSelector3_drive order calls =
     (case AgentSelector3_init order of
        Inl e \<Rightarrow> Inl e
      | Inr s \<Rightarrow> AgentSelector3_run calls s)"

text \<open>
  The same with a caller that catches the exceptions of the calls (an exception of the
  constructor leaves nothing to drive).
\<close>

definition AgentSelector2_drive_caught ::
  "string list \<Rightarrow> call2 list \<Rightarrow> error + ((error + string option) list \<times> AgentSelector2)" where
  "AgentSelector2_drive_caught order calls =
     (case AgentSelector2_init order of
        Inl e \<Rightarrow> Inl e
      | Inr s \<Rightarrow> Inr (run_caught AgentSelector2_call calls s))"

definition AgentSelector3_drive_caught ::
  "string list \<Rightarrow> call3 list \<Rightarrow> error + ((error + string option) list \<times> AgentSelector3)" where
  "AgentSelector3_drive_caught order calls =
     (case AgentSelector3_init order of
        Inl e \<Rightarrow> Inl e
      | Inr s \<Rightarrow> Inr (run_caught AgentSelector3_call calls s))"

text \<open>
  \<^verbatim>\<open>reinit\<close> raises exactly when it is given an order without the manager or without
  coordination; the other calls get anything.
\<close>

fun reinit_ok2 :: "call2 \<Rightarrow> bool" where
  "reinit_ok2 (Reinit2 order) \<longleftrightarrow> ''manager'' \<in> set order \<and> ''coordination'' \<in> set order"
| "reinit_ok2 Reset2 \<longleftrightarrow> True"
| "reinit_ok2 (Next2 manager_act coordination_act active_agents) \<longleftrightarrow> True"

fun reinit_ok3 :: "call3 \<Rightarrow> bool" where
  "reinit_ok3 (Reinit3 order) \<longleftrightarrow> ''manager'' \<in> set order \<and> ''coordination'' \<in> set order"
| "reinit_ok3 Reset3 \<longleftrightarrow> True"
| "reinit_ok3 (Next3 manager_act workstation_act) \<longleftrightarrow> True"

section \<open>The role indices as an invariant\<close>

text \<open>
  The constructors derive the role indices from the order and no other method writes
  them: in every state a constructor or a returning \<^verbatim>\<open>reinit\<close> produced, and in every
  state reached from one by \<^verbatim>\<open>reset\<close> and \<^verbatim>\<open>next\<close>, the indices are those of the
  stored order. A \<^verbatim>\<open>reinit\<close> that raises breaks this.
\<close>

definition roles_ok2 :: "AgentSelector2 \<Rightarrow> bool" where
  "roles_ok2 s \<longleftrightarrow>
     py_index (agent_order2 s) ''manager'' = Inr (manager_index2 s) \<and>
     py_index (agent_order2 s) ''coordination'' = Inr (coordination_index2 s) \<and>
     workstation_indices2 s = workstation_indices_of (agent_order2 s)"

definition roles_ok3 :: "AgentSelector3 \<Rightarrow> bool" where
  "roles_ok3 s \<longleftrightarrow>
     py_index (agent_order3 s) ''manager'' = Inr (manager_index3 s) \<and>
     py_index (agent_order3 s) ''coordination'' = Inr (coordination_index3 s) \<and>
     workstation_indices3 s = workstation_indices_of (agent_order3 s)"

section \<open>Properties of the list primitives\<close>

lemma py_getitem_nat:
  "i < length xs \<Longrightarrow> py_getitem xs (int i) = Inr (xs ! i)"
  by (simp add: py_getitem_def)

lemma py_getitem_last:
  "xs \<noteq> [] \<Longrightarrow> py_getitem xs (- 1) = Inr (last xs)"
  by (cases xs rule: rev_cases) (auto simp: py_getitem_def Let_def nth_append)

lemma distinct_count_list:
  "distinct xs \<Longrightarrow> x \<in> set xs \<Longrightarrow> count_list xs x = 1"
  by (induction xs) auto

lemma run_calls_invariant:
  assumes step: "\<And>c s r s'. I s \<Longrightarrow> f c s = Inr (r, s') \<Longrightarrow> I s'"
    and "I s" and "run_calls f cs s = Inr (rs, s')"
  shows "I s'"
  using assms(2,3)
proof (induction cs arbitrary: s rs)
  case Nil
  then show ?case by simp
next
  case (Cons c cs)
  then show ?case
    by (auto split: sum.splits prod.splits dest: step)
qed

lemma py_index_Inr:
  "py_index xs x = Inr i \<Longrightarrow> 0 \<le> i \<and> i < int (length xs) \<and> xs ! nat i = x"
proof (induction xs arbitrary: i)
  case Nil
  then show ?case by simp
next
  case (Cons y ys)
  show ?case
  proof (cases "y = x")
    case True
    with Cons.prems show ?thesis by simp
  next
    case False
    with Cons.prems obtain j where j: "py_index ys x = Inr j" and i: "i = j + 1"
      by (auto split: sum.splits)
    from Cons.IH [OF j] have "0 \<le> j" "j < int (length ys)" "ys ! nat j = x" by simp_all
    then show ?thesis using i by (simp add: nat_add_distrib)
  qed
qed

lemma py_index_Inl:
  "py_index xs x = Inl e \<longleftrightarrow> e = ValueError \<and> x \<notin> set xs"
  by (induction xs) (auto split: sum.splits)

lemma py_index_getitem:
  "py_index xs x = Inr i \<Longrightarrow> py_getitem xs i = Inr x"
  using py_index_Inr [of xs x i] by (simp add: py_getitem_def)

lemma py_index_mem:
  "x \<in> set xs \<Longrightarrow> \<exists>i. py_index xs x = Inr i"
  by (cases "py_index xs x") (simp_all add: py_index_Inl)

lemma workstation_indices_of_bounds:
  "i \<in> set (workstation_indices_of order) \<Longrightarrow> 0 \<le> i \<and> i < int (length order)"
  by (auto simp: workstation_indices_of_def py_enumerate_def enumerate_eq_zip in_set_zip)

lemma py_getitem_workstation:
  assumes "k < length (workstation_indices_of order)"
  shows "py_getitem order (workstation_indices_of order ! k)
           = Inr (order ! nat (workstation_indices_of order ! k))"
  using workstation_indices_of_bounds [of "workstation_indices_of order ! k" order] assms
  by (simp add: py_getitem_def)


section \<open>The role indices are preserved; what one advance does\<close>

lemma roles_ok2_reinit:
  "AgentSelector2_reinit s order = Inr s' \<Longrightarrow> roles_ok2 s'"
  by (auto simp: AgentSelector2_reinit_def roles_ok2_def split: sum.splits)

lemma roles_ok2_init:
  "AgentSelector2_init order = Inr s \<Longrightarrow> roles_ok2 s"
  by (auto simp: AgentSelector2_init_def roles_ok2_def split: sum.splits)

lemma roles_ok2_call:
  "roles_ok2 s \<Longrightarrow> AgentSelector2_call c s = Inr (r, s') \<Longrightarrow> roles_ok2 s'"
proof (cases c)
  case (Reinit2 order)
  assume "AgentSelector2_call c s = Inr (r, s')"
  with Reinit2 show ?thesis by (auto split: sum.splits dest: roles_ok2_reinit)
next
  case Reset2
  assume "roles_ok2 s" "AgentSelector2_call c s = Inr (r, s')"
  with Reset2 show ?thesis
    by (auto simp: AgentSelector2_reset_def roles_ok2_def split: sum.splits)
next
  case (Next2 m co act)
  assume "roles_ok2 s" "AgentSelector2_call c s = Inr (r, s')"
  with Next2 show ?thesis
    by (auto simp: AgentSelector2_next_def roles_ok2_def Let_def split: sum.splits if_splits)
qed

lemma roles_ok2_drive:
  assumes "AgentSelector2_drive order calls = Inr (outs, s)"
  shows "roles_ok2 s"
proof -
  from assms obtain s0 where s0: "AgentSelector2_init order = Inr s0"
    and run: "run_calls AgentSelector2_call calls s0 = Inr (outs, s)"
    by (auto simp: AgentSelector2_drive_def AgentSelector2_run_def split: sum.splits)
  have "roles_ok2 s0" using s0 by (rule roles_ok2_init)
  with run show ?thesis
    using run_calls_invariant [of roles_ok2 AgentSelector2_call s0 calls outs s] roles_ok2_call
    by blast
qed

lemma roles_ok2_manager:
  "roles_ok2 s \<Longrightarrow> py_getitem (agent_order2 s) (manager_index2 s) = Inr ''manager''"
  by (simp add: roles_ok2_def py_index_getitem)

lemma roles_ok2_coordination:
  "roles_ok2 s \<Longrightarrow> py_getitem (agent_order2 s) (coordination_index2 s) = Inr ''coordination''"
  by (simp add: roles_ok2_def py_index_getitem)

lemma AgentSelector2_next_manager:
  assumes "roles_ok2 s" and "''manager'' \<in> set active_agents"
  shows "AgentSelector2_next s True coordination_act active_agents =
           Inr (''manager'', s\<lparr>selected_agent2 := Some ''manager'', current_index2 := 0\<rparr>)"
  using assms by (simp add: AgentSelector2_next_def roles_ok2_manager)

lemma AgentSelector2_next_cycle:
  assumes ok: "roles_ok2 s" and nm: "\<not> (manager_act \<and> ''manager'' \<in> set active_agents)"
  shows "\<exists>a. py_getitem (agent_order2 s)
                ((workstation_indices2 s @ [coordination_index2 s])
                   ! nat (current_index2 s mod (int (length (workstation_indices2 s)) + 1)))
              = Inr a \<and>
             AgentSelector2_next s manager_act coordination_act active_agents =
               Inr (a, s\<lparr>selected_agent2 := Some a, current_index2 := current_index2 s + 1\<rparr>)"
proof -
  let ?ws = "workstation_indices2 s"
  let ?k = "current_index2 s mod (int (length ?ws) + 1)"
  have "0 < int (length ?ws) + 1" by simp
  then have k: "0 \<le> ?k" "?k < int (length ?ws) + 1"
    by (rule pos_mod_sign, rule pos_mod_bound)
  have m: "py_mod (current_index2 s) (int (length ?ws) + 1) = Inr ?k"
    by (simp add: py_mod_def)
  have ws: "?ws = workstation_indices_of (agent_order2 s)"
    using ok by (simp add: roles_ok2_def)
  show ?thesis
  proof (cases "?k < int (length ?ws)")
    case True
    then have lt: "nat ?k < length ?ws" using k(1) by linarith
    have g1: "py_getitem ?ws ?k = Inr (?ws ! nat ?k)"
      using True k(1) by (simp add: py_getitem_def)
    have g2: "py_getitem (agent_order2 s) (?ws ! nat ?k) = Inr (agent_order2 s ! nat (?ws ! nat ?k))"
      using py_getitem_workstation [of "nat ?k" "agent_order2 s"] lt ws by simp
    have "(?ws @ [coordination_index2 s]) ! nat ?k = ?ws ! nat ?k"
      using lt by (simp add: nth_append)
    then show ?thesis
      using nm True m g1 g2 by (auto simp: AgentSelector2_next_def Let_def)
  next
    case False
    then have "?k = int (length ?ws)" using k(2) by linarith
    then have "(?ws @ [coordination_index2 s]) ! nat ?k = coordination_index2 s"
      by simp
    then show ?thesis
      using nm False m roles_ok2_coordination [OF ok]
      by (auto simp: AgentSelector2_next_def Let_def)
  qed
qed


text \<open>The same for the dynamic cycler.\<close>

lemma roles_ok3_reinit:
  "AgentSelector3_reinit s order = Inr s' \<Longrightarrow> roles_ok3 s'"
  by (auto simp: AgentSelector3_reinit_def roles_ok3_def split: sum.splits)

lemma roles_ok3_init:
  "AgentSelector3_init order = Inr s \<Longrightarrow> roles_ok3 s"
  by (auto simp: AgentSelector3_init_def roles_ok3_def split: sum.splits)

lemma roles_ok3_next:
  "roles_ok3 s \<Longrightarrow> AgentSelector3_next s m act = Inr (r, s') \<Longrightarrow> roles_ok3 s'"
  by (auto simp: AgentSelector3_next_def roles_ok3_def detect_change_def Let_def
      split: sum.splits if_splits)

lemma roles_ok3_call:
  "roles_ok3 s \<Longrightarrow> AgentSelector3_call c s = Inr (r, s') \<Longrightarrow> roles_ok3 s'"
proof (cases c)
  case (Reinit3 order)
  assume "AgentSelector3_call c s = Inr (r, s')"
  with Reinit3 show ?thesis by (auto split: sum.splits dest: roles_ok3_reinit)
next
  case Reset3
  assume "roles_ok3 s" "AgentSelector3_call c s = Inr (r, s')"
  with Reset3 show ?thesis
    by (auto simp: AgentSelector3_reset_def roles_ok3_def split: sum.splits)
next
  case (Next3 m act)
  assume "roles_ok3 s" "AgentSelector3_call c s = Inr (r, s')"
  with Next3 show ?thesis by (auto dest: roles_ok3_next)
qed

lemma roles_ok3_drive:
  assumes "AgentSelector3_drive order calls = Inr (outs, s)"
  shows "roles_ok3 s"
proof -
  from assms obtain s0 where s0: "AgentSelector3_init order = Inr s0"
    and run: "run_calls AgentSelector3_call calls s0 = Inr (outs, s)"
    by (auto simp: AgentSelector3_drive_def AgentSelector3_run_def split: sum.splits)
  have "roles_ok3 s0" using s0 by (rule roles_ok3_init)
  with run show ?thesis
    using run_calls_invariant [of roles_ok3 AgentSelector3_call s0 calls outs s] roles_ok3_call
    by blast
qed

lemma roles_ok3_manager:
  "roles_ok3 s \<Longrightarrow> py_getitem (agent_order3 s) (manager_index3 s) = Inr ''manager''"
  by (simp add: roles_ok3_def py_index_getitem)

lemma roles_ok3_coordination:
  "roles_ok3 s \<Longrightarrow> py_getitem (agent_order3 s) (coordination_index3 s) = Inr ''coordination''"
  by (simp add: roles_ok3_def py_index_getitem)

lemma AgentSelector3_next_manager:
  assumes "roles_ok3 s"
  shows "AgentSelector3_next s True workstation_act =
           Inr (Some ''manager'',
                s\<lparr>selected_agent3 := Some ''manager'', current_index3 := 0,
                  previous_agents_in_cycle_indices := []\<rparr>)"
  using assms by (simp add: AgentSelector3_next_def roles_ok3_manager)

text \<open>The comprehension over the activity vector.\<close>

lemma active_of_enumerate:
  "active_of (map (\<lambda>(i, x). (int i, x)) (List.enumerate n ws)) act =
     (if n + length ws \<le> length act \<or> ws = []
      then Inr (map snd (filter (\<lambda>(i, idx). act ! i = 1) (List.enumerate n ws)))
      else Inl IndexError)"
proof (induction ws arbitrary: n)
  case Nil
  then show ?case by simp
next
  case (Cons w ws)
  show ?case
  proof (cases "n < length act")
    case True
    then have "py_getitem act (int n) = Inr (act ! n)" by (rule py_getitem_nat)
    moreover have "Suc n + length ws \<le> length act \<or> ws = [] \<longleftrightarrow>
        n + length (w # ws) \<le> length act"
      using True by auto
    ultimately show ?thesis
      using Cons.IH [of "Suc n"] by auto
  next
    case False
    then have "py_getitem act (int n) = Inl IndexError"
      by (simp add: py_getitem_def)
    then show ?thesis using False by simp
  qed
qed

lemma active_workstation_indices_short:
  "length act < length (workstation_indices3 s) \<Longrightarrow>
     active_workstation_indices s act = Inl IndexError"
  by (auto simp: active_workstation_indices_def py_enumerate_def active_of_enumerate)

lemma active_workstation_indices_long:
  "length (workstation_indices3 s) \<le> length act \<Longrightarrow>
     active_workstation_indices s act =
       Inr (map snd (filter (\<lambda>(i, idx). act ! i = 1)
                      (List.enumerate 0 (workstation_indices3 s))))"
  by (simp add: active_workstation_indices_def py_enumerate_def active_of_enumerate)

lemma active_workstation_indices_subset:
  assumes "active_workstation_indices s act = Inr active"
  shows "set active \<subseteq> set (workstation_indices3 s)"
proof -
  have "active = map snd (filter (\<lambda>(i, idx). act ! i = 1)
                      (List.enumerate 0 (workstation_indices3 s)))"
    using assms
    by (auto simp: active_workstation_indices_def py_enumerate_def active_of_enumerate
        split: if_splits)
  then show ?thesis
    by (auto simp: enumerate_eq_zip dest: set_zip_rightD)
qed

lemma agents_in_cycle_indices_valid:
  assumes ok: "roles_ok3 s" and sub: "set active \<subseteq> set (workstation_indices3 s)"
    and i: "i \<in> set (agents_in_cycle_indices s active)"
  shows "0 \<le> i \<and> i < int (length (agent_order3 s))"
proof -
  have ws: "\<And>j. j \<in> set (workstation_indices3 s) \<Longrightarrow> 0 \<le> j \<and> j < int (length (agent_order3 s))"
    using ok workstation_indices_of_bounds by (simp add: roles_ok3_def)
  have m: "0 \<le> manager_index3 s \<and> manager_index3 s < int (length (agent_order3 s))"
    using ok py_index_Inr [of "agent_order3 s" "''manager''" "manager_index3 s"]
    by (simp add: roles_ok3_def)
  have c: "0 \<le> coordination_index3 s \<and> coordination_index3 s < int (length (agent_order3 s))"
    using ok py_index_Inr [of "agent_order3 s" "''coordination''" "coordination_index3 s"]
    by (simp add: roles_ok3_def)
  from i consider "i \<in> set (workstation_indices3 s)" | "i = coordination_index3 s"
    | "i = manager_index3 s"
    using sub by (auto simp: agents_in_cycle_indices_def split: if_splits)
  then show ?thesis using ws m c by cases auto
qed

lemma agents_in_cycle_indices_nonempty:
  "agents_in_cycle_indices s active \<noteq> []"
  by (simp add: agents_in_cycle_indices_def)

lemma AgentSelector3_next_cycle:
  assumes ok: "roles_ok3 s" and act: "active_workstation_indices s workstation_act = Inr active"
  shows "\<exists>a. py_getitem (agent_order3 s)
                (agents_in_cycle_indices s active
                   ! nat (current_index3 (detect_change s (agents_in_cycle_indices s active))
                          mod int (length (agents_in_cycle_indices s active))))
              = Inr a \<and>
             AgentSelector3_next s False workstation_act =
               Inr (Some a,
                    (detect_change s (agents_in_cycle_indices s active))
                      \<lparr>selected_agent3 := Some a,
                       current_index3 :=
                         current_index3 (detect_change s (agents_in_cycle_indices s active)) + 1\<rparr>)"
proof -
  let ?cyc = "agents_in_cycle_indices s active"
  let ?s1 = "detect_change s ?cyc"
  let ?k = "current_index3 ?s1 mod int (length ?cyc)"
  have ne: "?cyc \<noteq> []" by (rule agents_in_cycle_indices_nonempty)
  then have "0 < int (length ?cyc)" by simp
  then have k: "0 \<le> ?k" "?k < int (length ?cyc)"
    by (rule pos_mod_sign, rule pos_mod_bound)
  have m: "py_mod (current_index3 ?s1) (int (length ?cyc)) = Inr ?k"
    using ne by (simp add: py_mod_def)
  have g1: "py_getitem ?cyc ?k = Inr (?cyc ! nat ?k)"
    using k by (simp add: py_getitem_def)
  have "?cyc ! nat ?k \<in> set ?cyc" using k by simp
  then have "0 \<le> ?cyc ! nat ?k \<and> ?cyc ! nat ?k < int (length (agent_order3 s))"
    using agents_in_cycle_indices_valid [OF ok active_workstation_indices_subset [OF act]]
    by blast
  then have g2: "py_getitem (agent_order3 s) (?cyc ! nat ?k)
                   = Inr (agent_order3 s ! nat (?cyc ! nat ?k))"
    by (simp add: py_getitem_def)
  have o1: "agent_order3 ?s1 = agent_order3 s" by (simp add: detect_change_def)
  show ?thesis
    using act ne m g1 g2 o1 by (simp add: AgentSelector3_next_def Let_def)
qed

section \<open>The fixed-order cycler is a round robin\<close>

lemma AgentSelector_next_at:
  assumes "i < length (agent_order s)"
    and "current_agent s = int i"
  shows "AgentSelector_next s =
     Inr (agent_order s ! i,
          s\<lparr>current_agent := int (Suc i mod length (agent_order s)),
            selected_agent := agent_order s ! i\<rparr>)"
proof -
  let ?n = "length (agent_order s)"
  have m: "py_mod (current_agent s + 1) (int ?n) = Inr (int (Suc i mod ?n))"
  proof -
    have "0 < ?n" using assms(1) by linarith
    then show ?thesis using assms(2) by (simp add: py_mod_def zmod_int add.commute)
  qed
  have g: "py_getitem (agent_order s) (int (Suc i mod ?n) - 1) = Inr (agent_order s ! i)"
  proof (cases "Suc i = ?n")
    case True
    then have "Suc i mod ?n = 0" by simp
    moreover have "last (agent_order s) = agent_order s ! i"
      using True assms(1) by (metis diff_Suc_1 last_conv_nth length_greater_0_conv gr_implies_not0 list.size(3))
    moreover have "agent_order s \<noteq> []" using assms(1) by auto
    ultimately show ?thesis
      by (simp add: py_getitem_last)
  next
    case False
    then have "Suc i mod ?n = Suc i" using assms(1) by simp
    then show ?thesis using assms(1) by (simp add: py_getitem_nat)
  qed
  show ?thesis
    unfolding AgentSelector_next_def by (simp add: m g)
qed

lemma AgentSelector_next_steps:
  assumes "i < length (agent_order s)" and "current_agent s = int i"
  shows "\<exists>s'. AgentSelector_run (replicate k Next1) s =
            Inr (map (\<lambda>j. agent_order s ! ((i + j) mod length (agent_order s))) [0..<k], s') \<and>
          agent_order s' = agent_order s \<and>
          current_agent s' = int ((i + k) mod length (agent_order s))"
  using assms
proof (induction k arbitrary: s i)
  case 0
  then show ?case by (simp add: AgentSelector_run_def)
next
  case (Suc k)
  let ?n = "length (agent_order s)"
  let ?s1 = "s\<lparr>current_agent := int (Suc i mod ?n), selected_agent := agent_order s ! i\<rparr>"
  have step: "AgentSelector_next s = Inr (agent_order s ! i, ?s1)"
    using Suc.prems by (rule AgentSelector_next_at)
  have pos: "0 < ?n" using Suc.prems(1) by linarith
  then have "Suc i mod ?n < length (agent_order ?s1)" by simp
  moreover have "current_agent ?s1 = int (Suc i mod ?n)" by simp
  ultimately obtain s' where
    run: "AgentSelector_run (replicate k Next1) ?s1 =
            Inr (map (\<lambda>j. agent_order ?s1 ! ((Suc i mod ?n + j) mod length (agent_order ?s1))) [0..<k], s')"
    and ord: "agent_order s' = agent_order ?s1"
    and cur: "current_agent s' = int ((Suc i mod ?n + k) mod length (agent_order ?s1))"
    using Suc.IH by blast
  have idx: "\<And>j. (Suc i mod ?n + j) mod ?n = (i + Suc j) mod ?n"
    by (metis add_Suc add_Suc_right mod_add_left_eq)
  have "map (\<lambda>j. agent_order s ! ((i + j) mod ?n)) [0..<Suc k] =
        agent_order s ! i # map (\<lambda>j. agent_order s ! ((Suc i mod ?n + j) mod ?n)) [0..<k]"
    using Suc.prems(1) by (simp add: upt_conv_Cons map_Suc_upt [symmetric] idx del: upt_Suc)
  then show ?case
    using step run ord cur idx [of k]
    by (auto simp: AgentSelector_run_def)
qed


lemma AgentSelector_run_Reset:
  "AgentSelector_run (Reset1 # cs) s =
   AgentSelector_run (Next1 # cs) (AgentSelector_reinit s (agent_order s))"
  by (simp add: AgentSelector_run_def AgentSelector_reset_def)

text \<open>
  C1 (round-robin completeness). For a non-empty duplicate-free order of length \<open>N\<close>,
  on any selector holding that order: \<^verbatim>\<open>reset()\<close> followed by \<open>N - 1\<close> calls of
  \<^verbatim>\<open>next()\<close>, that is \<open>N\<close> consecutive advances after the reinitialisation, return
  exactly the order (the first identifier from \<^verbatim>\<open>reset()\<close>, then the remaining ones),
  each identifier once, and the following call returns the first identifier again.
\<close>

theorem round_robin_completeness:
  assumes "order \<noteq> []" and "distinct order" and "agent_order s0 = order"
  shows "\<exists>outs s s'.
           AgentSelector_run (Reset1 # replicate (length order - 1) Next1) s0 = Inr (outs, s) \<and>
           outs = order \<and>
           (\<forall>a\<in>set order. count_list outs a = 1) \<and>
           AgentSelector_run [Next1] s = Inr ([hd order], s')"
proof -
  let ?n = "length order"
  let ?s1 = "AgentSelector_reinit s0 (agent_order s0)"
  have pos: "0 < ?n" using assms(1) by simp
  have o1: "agent_order ?s1 = order" and c1: "current_agent ?s1 = int 0"
    using assms(3) by (simp_all add: AgentSelector_reinit_def)
  have "0 < length (agent_order ?s1)" using pos o1 by simp
  from AgentSelector_next_steps [OF this c1, of ?n] obtain s where
    run: "AgentSelector_run (replicate ?n Next1) ?s1 =
            Inr (map (\<lambda>j. order ! (j mod ?n)) [0..<?n], s)"
    and ord: "agent_order s = order" and cur: "current_agent s = int 0"
    using o1 by auto
  have "map (\<lambda>j. order ! (j mod ?n)) [0..<?n] = map (\<lambda>j. order ! j) [0..<?n]"
    by (rule map_cong) simp_all
  then have outs: "map (\<lambda>j. order ! (j mod ?n)) [0..<?n] = order"
    by (simp add: map_nth)
  have "replicate ?n Next1 = Next1 # replicate (?n - 1) Next1"
    using pos by (cases ?n) simp_all
  then have r1: "AgentSelector_run (Reset1 # replicate (?n - 1) Next1) s0 = Inr (order, s)"
    using run outs by (simp add: AgentSelector_run_Reset)
  have "AgentSelector_next s = Inr (agent_order s ! 0,
          s\<lparr>current_agent := int (Suc 0 mod length (agent_order s)),
            selected_agent := agent_order s ! 0\<rparr>)"
    using pos ord cur by (intro AgentSelector_next_at) simp_all
  then have r2: "\<exists>s'. AgentSelector_run [Next1] s = Inr ([hd order], s')"
    using ord assms(1) by (simp add: AgentSelector_run_def hd_conv_nth)
  have "\<forall>a\<in>set order. count_list order a = 1"
    using assms(2) by (simp add: distinct_count_list)
  with r1 r2 show ?thesis by blast
qed

theorem round_robin_completeness_witness:
  "AgentSelector_run [Reset1, Next1, Next1] (AgentSelector_init [PyStr ''a'', PyStr ''b'', PyStr ''c''])
     = Inr ([PyStr ''a'', PyStr ''b'', PyStr ''c''],
            \<lparr>agent_order = [PyStr ''a'', PyStr ''b'', PyStr ''c''], current_agent = 0,
             selected_agent = PyStr ''c''\<rparr>) \<and>
   AgentSelector_run [Next1]
     \<lparr>agent_order = [PyStr ''a'', PyStr ''b'', PyStr ''c''], current_agent = 0,
      selected_agent = PyStr ''c''\<rparr>
     = Inr ([PyStr ''a''],
            \<lparr>agent_order = [PyStr ''a'', PyStr ''b'', PyStr ''c''], current_agent = 1,
             selected_agent = PyStr ''a''\<rparr>)"
  using round_robin_completeness [of "[PyStr ''a'', PyStr ''b'', PyStr ''c'']"
      "AgentSelector_init [PyStr ''a'', PyStr ''b'', PyStr ''c'']"]
  by (simp add: AgentSelector_run_def AgentSelector_init_def AgentSelector_reinit_def
      AgentSelector_reset_def AgentSelector_next_def py_mod_def py_getitem_def)

section \<open>The documented scenario of the dynamic cycler\<close>

text \<open>
  C2 (concrete scenario). With the order manager, workstation_0, workstation_1,
  coordination: \<^verbatim>\<open>reset()\<close> returns the manager; \<^verbatim>\<open>next(False, [1, 0])\<close> returns
  workstation_0 from the cycle \<open>[1, 3]\<close>; the same call again returns coordination and the
  position goes from 1 to 2 with the recorded cycle unchanged; \<^verbatim>\<open>next(True, _)\<close> returns
  the manager and leaves position 0 and an empty recorded cycle; \<^verbatim>\<open>next(False, [0, 0])\<close>
  then records the fallback cycle \<open>[1, 2, 3, 0]\<close> and returns its element at position 0,
  workstation_0, leaving the position at 1.
\<close>

theorem dynamic_cycler_scenario:
  "\<exists>s0 s1 s2 s3 s4 s5.
     AgentSelector3_init [''manager'', ''workstation_0'', ''workstation_1'', ''coordination'']
       = Inr s0 \<and>
     AgentSelector3_reset s0 = Inr (''manager'', s1) \<and>
     AgentSelector3_next s1 False [1, 0] = Inr (Some ''workstation_0'', s2) \<and>
     previous_agents_in_cycle_indices s2 = [1, 3] \<and>
     current_index3 s2 = 1 \<and>
     AgentSelector3_next s2 False [1, 0] = Inr (Some ''coordination'', s3) \<and>
     previous_agents_in_cycle_indices s3 = [1, 3] \<and>
     current_index3 s3 = 2 \<and>
     AgentSelector3_next s3 True [1, 0] = Inr (Some ''manager'', s4) \<and>
     previous_agents_in_cycle_indices s4 = [] \<and>
     current_index3 s4 = 0 \<and>
     AgentSelector3_next s4 False [0, 0] = Inr (Some ''workstation_0'', s5) \<and>
     previous_agents_in_cycle_indices s5 = [1, 2, 3, 0] \<and>
     current_index3 s5 = 1"
  by (simp add: AgentSelector3_init_def AgentSelector3_reinit_def AgentSelector3_reset_def
      AgentSelector3_next_def workstation_indices_of_def py_enumerate_def startswith_def
      py_getitem_def py_mod_def active_workstation_indices_def agents_in_cycle_indices_def
      detect_change_def enumerate_eq_zip)

section \<open>The hierarchical cycler ignores its coordination flag\<close>

text \<open>
  C10 (\<^verbatim>\<open>coordination_act\<close> is inert). In every state of \<^verbatim>\<open>AgentSelector2\<close> and for every
  \<^verbatim>\<open>manager_act\<close> and \<^verbatim>\<open>active_agents\<close>, two \<^verbatim>\<open>next\<close> calls that differ only in
  \<^verbatim>\<open>coordination_act\<close> have the same outcome: the same exception, or the same returned
  agent and the same resulting state.
\<close>

theorem coordination_act_inert:
  "AgentSelector2_next self manager_act coordination_act active_agents =
   AgentSelector2_next self manager_act coordination_act' active_agents"
  by (simp add: AgentSelector2_next_def)

section \<open>Manager preemption\<close>

lemmas sel_defs =
  AgentSelector2_drive_caught_def AgentSelector3_drive_caught_def
  AgentSelector2_drive_def AgentSelector2_run_def AgentSelector2_init_def
  AgentSelector2_reinit_def AgentSelector2_reset_def AgentSelector2_next_def
  AgentSelector3_drive_def AgentSelector3_run_def AgentSelector3_init_def
  AgentSelector3_reinit_def AgentSelector3_reset_def AgentSelector3_next_def
  workstation_indices_of_def py_enumerate_def startswith_def py_getitem_def py_mod_def
  active_workstation_indices_def agents_in_cycle_indices_def detect_change_def
  enumerate_eq_zip

lemma run_caught_invariant:
  assumes raised: "\<And>c s e s'. P c \<Longrightarrow> I s \<Longrightarrow> f c s = Inl (e, s') \<Longrightarrow> I s'"
    and returned: "\<And>c s r s'. P c \<Longrightarrow> I s \<Longrightarrow> f c s = Inr (r, s') \<Longrightarrow> I s'"
    and "list_all P cs" and "I s" and "run_caught f cs s = (rs, s')"
  shows "I s'"
  using assms(3-)
proof (induction cs arbitrary: s rs)
  case Nil
  then show ?case by simp
next
  case (Cons c cs)
  from Cons.prems(1) have Pc: "P c" and rest: "list_all P cs" by simp_all
  show ?case
  proof (cases "f c s")
    case (Inl es)
    then obtain e s1 where f: "f c s = Inl (e, s1)" by (cases es) simp
    then have "I s1" using raised [OF Pc Cons.prems(2)] by simp
    moreover obtain qs where "run_caught f cs s1 = (qs, s')"
      using Cons.prems(3) f by (auto split: prod.splits)
    ultimately show ?thesis
      using Cons.IH [OF rest] by blast
  next
    case (Inr rs1)
    then obtain r s1 where f: "f c s = Inr (r, s1)" by (cases rs1) simp
    then have "I s1" using returned [OF Pc Cons.prems(2)] by simp
    moreover obtain qs where "run_caught f cs s1 = (qs, s')"
      using Cons.prems(3) f by (auto split: prod.splits)
    ultimately show ?thesis
      using Cons.IH [OF rest] by blast
  qed
qed

lemma run_calls_caught:
  "run_calls f cs s = Inr (rs, s') \<Longrightarrow> run_caught f cs s = (map Inr rs, s')"
proof (induction cs arbitrary: s rs)
  case Nil
  then show ?case by simp
next
  case (Cons c cs)
  then show ?case by (auto split: sum.splits prod.splits)
qed

lemma roles_ok2_call_raised:
  assumes "roles_ok2 s" and "reinit_ok2 c" and "AgentSelector2_call c s = Inl (e, s')"
  shows "roles_ok2 s'"
proof (cases c)
  case (Reinit2 order)
  with assms(2) have both: "''manager'' \<in> set order" "''coordination'' \<in> set order" by simp_all
  from py_index_mem [OF both(1)] obtain m where "py_index order ''manager'' = Inr m" ..
  moreover from py_index_mem [OF both(2)] obtain k where "py_index order ''coordination'' = Inr k" ..
  ultimately have "\<exists>t. AgentSelector2_reinit s order = Inr t"
    by (simp add: AgentSelector2_reinit_def)
  with assms(3) Reinit2 show ?thesis by auto
next
  case Reset2
  with assms(1,3) show ?thesis
    by (auto simp: AgentSelector2_reset_def roles_ok2_def split: sum.splits)
next
  case (Next2 m co act)
  with assms(1,3) show ?thesis
    by (auto simp: AgentSelector2_next_def Let_def split: sum.splits if_splits)
qed

lemma roles_ok3_call_raised:
  assumes "roles_ok3 s" and "reinit_ok3 c" and "AgentSelector3_call c s = Inl (e, s')"
  shows "roles_ok3 s'"
proof (cases c)
  case (Reinit3 order)
  with assms(2) have both: "''manager'' \<in> set order" "''coordination'' \<in> set order" by simp_all
  from py_index_mem [OF both(1)] obtain m where "py_index order ''manager'' = Inr m" ..
  moreover from py_index_mem [OF both(2)] obtain k where "py_index order ''coordination'' = Inr k" ..
  ultimately have "\<exists>t. AgentSelector3_reinit s order = Inr t"
    by (simp add: AgentSelector3_reinit_def)
  with assms(3) Reinit3 show ?thesis by auto
next
  case Reset3
  with assms(1,3) show ?thesis
    by (auto simp: AgentSelector3_reset_def roles_ok3_def split: sum.splits)
next
  case (Next3 m act)
  with assms(1,3) show ?thesis
    by (auto simp: AgentSelector3_next_def roles_ok3_def detect_change_def Let_def
        split: sum.splits if_splits)
qed

lemma roles_ok2_drive_caught:
  assumes "AgentSelector2_drive_caught order calls = Inr (outs, s)"
    and "list_all reinit_ok2 calls"
  shows "roles_ok2 s"
proof -
  from assms(1) obtain s0 where s0: "AgentSelector2_init order = Inr s0"
    and run: "run_caught AgentSelector2_call calls s0 = (outs, s)"
    by (auto simp: AgentSelector2_drive_caught_def split: sum.splits)
  show ?thesis
  proof (rule run_caught_invariant [of reinit_ok2 roles_ok2 AgentSelector2_call calls s0 outs s])
    show "roles_ok2 s0" using s0 by (rule roles_ok2_init)
    show "run_caught AgentSelector2_call calls s0 = (outs, s)" by (rule run)
    show "list_all reinit_ok2 calls" by (rule assms(2))
  next
    fix c t e t'
    assume "reinit_ok2 c" "roles_ok2 t" "AgentSelector2_call c t = Inl (e, t')"
    then show "roles_ok2 t'" using roles_ok2_call_raised by blast
  next
    fix c t r t'
    assume "roles_ok2 t" "AgentSelector2_call c t = Inr (r, t')"
    then show "roles_ok2 t'" by (rule roles_ok2_call)
  qed
qed

lemma roles_ok3_drive_caught:
  assumes "AgentSelector3_drive_caught order calls = Inr (outs, s)"
    and "list_all reinit_ok3 calls"
  shows "roles_ok3 s"
proof -
  from assms(1) obtain s0 where s0: "AgentSelector3_init order = Inr s0"
    and run: "run_caught AgentSelector3_call calls s0 = (outs, s)"
    by (auto simp: AgentSelector3_drive_caught_def split: sum.splits)
  show ?thesis
  proof (rule run_caught_invariant [of reinit_ok3 roles_ok3 AgentSelector3_call calls s0 outs s])
    show "roles_ok3 s0" using s0 by (rule roles_ok3_init)
    show "run_caught AgentSelector3_call calls s0 = (outs, s)" by (rule run)
    show "list_all reinit_ok3 calls" by (rule assms(2))
  next
    fix c t e t'
    assume "reinit_ok3 c" "roles_ok3 t" "AgentSelector3_call c t = Inl (e, t')"
    then show "roles_ok3 t'" using roles_ok3_call_raised by blast
  next
    fix c t r t'
    assume "roles_ok3 t" "AgentSelector3_call c t = Inr (r, t')"
    then show "roles_ok3 t'" by (rule roles_ok3_call)
  qed
qed


lemma AgentSelector2_drive_is_caught:
  assumes "AgentSelector2_drive order calls = Inr (outs, s)"
  shows "AgentSelector2_drive_caught order calls = Inr (map Inr outs, s) \<and>
         list_all reinit_ok2 calls"
proof -
  from assms obtain s0 where s0: "AgentSelector2_init order = Inr s0"
    and run: "run_calls AgentSelector2_call calls s0 = Inr (outs, s)"
    by (auto simp: AgentSelector2_drive_def AgentSelector2_run_def split: sum.splits)
  have "list_all reinit_ok2 calls" using run
  proof (induction calls arbitrary: s0 outs)
    case Nil
    then show ?case by simp
  next
    case (Cons c cs)
    from Cons.prems obtain r s1 rs where c: "AgentSelector2_call c s0 = Inr (r, s1)"
      and rest: "run_calls AgentSelector2_call cs s1 = Inr (rs, s)"
      by (auto split: sum.splits prod.splits)
    have "reinit_ok2 c"
    proof (cases c)
      case (Reinit2 order')
      with c obtain t where "AgentSelector2_reinit s0 order' = Inr t"
        by (auto split: sum.splits)
      then have "py_index order' ''manager'' \<noteq> Inl ValueError"
        "py_index order' ''coordination'' \<noteq> Inl ValueError"
        by (auto simp: AgentSelector2_reinit_def split: sum.splits)
      then show ?thesis using Reinit2 by (simp add: py_index_Inl)
    qed simp_all
    with Cons.IH [OF rest] show ?case by simp
  qed
  with s0 run_calls_caught [OF run] show ?thesis
    by (simp add: AgentSelector2_drive_caught_def)
qed

lemma AgentSelector3_drive_is_caught:
  assumes "AgentSelector3_drive order calls = Inr (outs, s)"
  shows "AgentSelector3_drive_caught order calls = Inr (map Inr outs, s) \<and>
         list_all reinit_ok3 calls"
proof -
  from assms obtain s0 where s0: "AgentSelector3_init order = Inr s0"
    and run: "run_calls AgentSelector3_call calls s0 = Inr (outs, s)"
    by (auto simp: AgentSelector3_drive_def AgentSelector3_run_def split: sum.splits)
  have "list_all reinit_ok3 calls" using run
  proof (induction calls arbitrary: s0 outs)
    case Nil
    then show ?case by simp
  next
    case (Cons c cs)
    from Cons.prems obtain r s1 rs where c: "AgentSelector3_call c s0 = Inr (r, s1)"
      and rest: "run_calls AgentSelector3_call cs s1 = Inr (rs, s)"
      by (auto split: sum.splits prod.splits)
    have "reinit_ok3 c"
    proof (cases c)
      case (Reinit3 order')
      with c obtain t where "AgentSelector3_reinit s0 order' = Inr t"
        by (auto split: sum.splits)
      then have "py_index order' ''manager'' \<noteq> Inl ValueError"
        "py_index order' ''coordination'' \<noteq> Inl ValueError"
        by (auto simp: AgentSelector3_reinit_def split: sum.splits)
      then show ?thesis using Reinit3 by (simp add: py_index_Inl)
    qed simp_all
    with Cons.IH [OF rest] show ?case by simp
  qed
  with s0 run_calls_caught [OF run] show ?thesis
    by (simp add: AgentSelector3_drive_caught_def)
qed

text \<open>
  C3 as stated fails after a \<^verbatim>\<open>reinit\<close> that raised. A caller constructs a cycler on
  manager, coordination, calls \<^verbatim>\<open>reset()\<close>, then \<^verbatim>\<open>reinit(['a', 'b'])\<close>, which raises
  \<^verbatim>\<open>ValueError\<close> after storing the new order, and catches the exception. The manager
  index is still 0, and \<^verbatim>\<open>next\<close> with \<^verbatim>\<open>manager_act=True\<close> (the manager among the active
  agents, for the hierarchical cycler) returns \<^verbatim>\<open>'a'\<close>, not the manager.
\<close>

theorem manager_preemption_after_failed_reinit:
  "AgentSelector2_drive_caught [''manager'', ''coordination'']
     [Reset2, Reinit2 [''a'', ''b''], Next2 True False [''manager'']]
   = Inr ([Inr (Some ''manager''), Inl ValueError, Inr (Some ''a'')],
          \<lparr>agent_order2 = [''a'', ''b''], manager_index2 = 0, workstation_indices2 = [],
           coordination_index2 = 1, current_index2 = 0, selected_agent2 = Some ''a''\<rparr>) \<and>
   AgentSelector3_drive_caught [''manager'', ''coordination'']
     [Reset3, Reinit3 [''a'', ''b''], Next3 True []]
   = Inr ([Inr (Some ''manager''), Inl ValueError, Inr (Some ''a'')],
          \<lparr>agent_order3 = [''a'', ''b''], manager_index3 = 0, workstation_indices3 = [],
           coordination_index3 = 1, current_index3 = 0, selected_agent3 = Some ''a'',
           previous_agents_in_cycle_indices = []\<rparr>)"
  by (simp add: sel_defs)

text \<open>
  C3 (manager preemption), amended. Take any state a constructed cycler reaches by any
  call sequence, the caller catching whatever the calls raise, in which every \<^verbatim>\<open>reinit\<close>
  was given an order holding the manager and coordination (so no \<^verbatim>\<open>reinit\<close> raised); the
  runs in which every call returns are among these. In such a state of the hierarchical
  cycler, \<^verbatim>\<open>next\<close> with \<^verbatim>\<open>manager_act=True\<close> and the manager among \<^verbatim>\<open>active_agents\<close>
  returns the manager and sets the position to 0; in such a state of the dynamic cycler,
  \<^verbatim>\<open>next\<close> with \<^verbatim>\<open>manager_act=True\<close> returns the manager whatever the activity vector
  is, sets the position to 0 and empties the recorded cycle. In both, the next call that
  does not take the manager branch (in the dynamic cycler with an activity vector covering
  every workstation) returns the identifier at the first index of its cycle: workstations
  then coordination in the hierarchical cycler, the eligible cycle computed from the
  activity vector in the dynamic one.
\<close>

theorem manager_preemption:
  "(AgentSelector2_drive_caught order2 calls2 = Inr (outs2, h) \<and> list_all reinit_ok2 calls2 \<and>
      ''manager'' \<in> set active_agents \<and>
      \<not> (manager_act' \<and> ''manager'' \<in> set active_agents') \<longrightarrow>
      (\<exists>h' a h''.
         AgentSelector2_next h True coordination_act active_agents = Inr (''manager'', h') \<and>
         current_index2 h' = 0 \<and>
         AgentSelector2_next h' manager_act' coordination_act' active_agents' = Inr (a, h'') \<and>
         py_getitem (agent_order2 h') (hd (workstation_indices2 h' @ [coordination_index2 h']))
           = Inr a))
   \<and>
   (AgentSelector3_drive_caught order3 calls3 = Inr (outs3, d) \<and> list_all reinit_ok3 calls3 \<and>
      length (workstation_indices3 d) \<le> length workstation_act' \<longrightarrow>
      (\<exists>d' active a d''.
         AgentSelector3_next d True workstation_act = Inr (Some ''manager'', d') \<and>
         current_index3 d' = 0 \<and>
         previous_agents_in_cycle_indices d' = [] \<and>
         active_workstation_indices d' workstation_act' = Inr active \<and>
         AgentSelector3_next d' False workstation_act' = Inr (Some a, d'') \<and>
         py_getitem (agent_order3 d') (hd (agents_in_cycle_indices d' active)) = Inr a))"
proof (intro conjI impI)
  assume A: "AgentSelector2_drive_caught order2 calls2 = Inr (outs2, h) \<and>
    list_all reinit_ok2 calls2 \<and>
    ''manager'' \<in> set active_agents \<and> \<not> (manager_act' \<and> ''manager'' \<in> set active_agents')"
  let ?h' = "h\<lparr>selected_agent2 := Some ''manager'', current_index2 := 0\<rparr>"
  have ok: "roles_ok2 h" using A roles_ok2_drive_caught by blast
  then have ok': "roles_ok2 ?h'" by (simp add: roles_ok2_def)
  have pre: "AgentSelector2_next h True coordination_act active_agents = Inr (''manager'', ?h')"
    using ok A by (simp add: AgentSelector2_next_manager)
  from AgentSelector2_next_cycle [OF ok', of manager_act' active_agents' coordination_act'] A
  obtain a h'' where
    g: "py_getitem (agent_order2 ?h')
          ((workstation_indices2 ?h' @ [coordination_index2 ?h'])
             ! nat (current_index2 ?h' mod (int (length (workstation_indices2 ?h')) + 1))) = Inr a"
    and n: "AgentSelector2_next ?h' manager_act' coordination_act' active_agents' = Inr (a, h'')"
    by blast
  have "(workstation_indices2 ?h' @ [coordination_index2 ?h']) ! 0
          = hd (workstation_indices2 ?h' @ [coordination_index2 ?h'])"
    by (simp add: hd_conv_nth)
  with g have "py_getitem (agent_order2 ?h')
      (hd (workstation_indices2 ?h' @ [coordination_index2 ?h'])) = Inr a"
    by simp
  with pre n show "\<exists>h' a h''.
         AgentSelector2_next h True coordination_act active_agents = Inr (''manager'', h') \<and>
         current_index2 h' = 0 \<and>
         AgentSelector2_next h' manager_act' coordination_act' active_agents' = Inr (a, h'') \<and>
         py_getitem (agent_order2 h') (hd (workstation_indices2 h' @ [coordination_index2 h']))
           = Inr a"
    by (intro exI [of _ ?h'] exI [of _ a] exI [of _ h'']) simp
next
  assume B: "AgentSelector3_drive_caught order3 calls3 = Inr (outs3, d) \<and>
      list_all reinit_ok3 calls3 \<and>
      length (workstation_indices3 d) \<le> length workstation_act'"
  let ?d' = "d\<lparr>selected_agent3 := Some ''manager'', current_index3 := 0,
                previous_agents_in_cycle_indices := []\<rparr>"
  have ok: "roles_ok3 d" using B roles_ok3_drive_caught by blast
  then have ok': "roles_ok3 ?d'" by (simp add: roles_ok3_def)
  have pre: "AgentSelector3_next d True workstation_act = Inr (Some ''manager'', ?d')"
    using ok by (rule AgentSelector3_next_manager)
  obtain active where act: "active_workstation_indices ?d' workstation_act' = Inr active"
    using B by (simp add: active_workstation_indices_long)
  let ?cyc = "agents_in_cycle_indices ?d' active"
  have ne: "?cyc \<noteq> []" by (rule agents_in_cycle_indices_nonempty)
  then have dc: "current_index3 (detect_change ?d' ?cyc) = 0"
    by (simp add: detect_change_def)
  from AgentSelector3_next_cycle [OF ok' act] obtain a d'' where
    g: "py_getitem (agent_order3 ?d')
          (?cyc ! nat (current_index3 (detect_change ?d' ?cyc) mod int (length ?cyc))) = Inr a"
    and n: "AgentSelector3_next ?d' False workstation_act' = Inr (Some a, d'')"
    by blast
  have "?cyc ! 0 = hd ?cyc" using ne by (simp add: hd_conv_nth)
  with g dc have "py_getitem (agent_order3 ?d') (hd ?cyc) = Inr a" by simp
  with pre act n show "\<exists>d' active a d''.
         AgentSelector3_next d True workstation_act = Inr (Some ''manager'', d') \<and>
         current_index3 d' = 0 \<and>
         previous_agents_in_cycle_indices d' = [] \<and>
         active_workstation_indices d' workstation_act' = Inr active \<and>
         AgentSelector3_next d' False workstation_act' = Inr (Some a, d'') \<and>
         py_getitem (agent_order3 d') (hd (agents_in_cycle_indices d' active)) = Inr a"
    by (intro exI [of _ ?d'] exI [of _ active] exI [of _ a] exI [of _ d'']) simp
qed

theorem manager_preemption_witness:
  "AgentSelector2_drive_caught [''manager'', ''workstation_0'', ''workstation_1'', ''coordination'']
     [Reset2, Next2 False False [], Next2 False False []]
   = Inr ([Inr (Some ''manager''), Inr (Some ''workstation_0''), Inr (Some ''workstation_1'')],
          \<lparr>agent_order2 = [''manager'', ''workstation_0'', ''workstation_1'', ''coordination''],
           manager_index2 = 0, workstation_indices2 = [1, 2], coordination_index2 = 3,
           current_index2 = 2, selected_agent2 = Some ''workstation_1''\<rparr>) \<and>
   (\<exists>h' a h''.
      AgentSelector2_next
        \<lparr>agent_order2 = [''manager'', ''workstation_0'', ''workstation_1'', ''coordination''],
         manager_index2 = 0, workstation_indices2 = [1, 2], coordination_index2 = 3,
         current_index2 = 2, selected_agent2 = Some ''workstation_1''\<rparr>
        True False [''manager''] = Inr (''manager'', h') \<and>
      current_index2 h' = 0 \<and>
      AgentSelector2_next h' False False [''manager''] = Inr (a, h'') \<and>
      py_getitem (agent_order2 h') (hd (workstation_indices2 h' @ [coordination_index2 h']))
        = Inr a) \<and>
   AgentSelector3_drive_caught [''manager'', ''workstation_0'', ''workstation_1'', ''coordination'']
     [Reset3, Next3 False [1], Next3 False [1, 1], Next3 False [1, 1]]
   = Inr ([Inr (Some ''manager''), Inl IndexError, Inr (Some ''workstation_0''),
           Inr (Some ''workstation_1'')],
          \<lparr>agent_order3 = [''manager'', ''workstation_0'', ''workstation_1'', ''coordination''],
           manager_index3 = 0, workstation_indices3 = [1, 2], coordination_index3 = 3,
           current_index3 = 2, selected_agent3 = Some ''workstation_1'',
           previous_agents_in_cycle_indices = [1, 2, 3]\<rparr>) \<and>
   (\<exists>d' active a d''.
      AgentSelector3_next
        \<lparr>agent_order3 = [''manager'', ''workstation_0'', ''workstation_1'', ''coordination''],
         manager_index3 = 0, workstation_indices3 = [1, 2], coordination_index3 = 3,
         current_index3 = 2, selected_agent3 = Some ''workstation_1'',
         previous_agents_in_cycle_indices = [1, 2, 3]\<rparr>
        True [] = Inr (Some ''manager'', d') \<and>
      current_index3 d' = 0 \<and>
      previous_agents_in_cycle_indices d' = [] \<and>
      active_workstation_indices d' [0, 1] = Inr active \<and>
      AgentSelector3_next d' False [0, 1] = Inr (Some a, d'') \<and>
      py_getitem (agent_order3 d') (hd (agents_in_cycle_indices d' active)) = Inr a)"
proof -
  let ?o = "[''manager'', ''workstation_0'', ''workstation_1'', ''coordination'']"
  let ?h = "\<lparr>agent_order2 = ?o,
           manager_index2 = 0, workstation_indices2 = [1, 2], coordination_index2 = 3,
           current_index2 = 2, selected_agent2 = Some ''workstation_1''\<rparr>"
  let ?d = "\<lparr>agent_order3 = ?o,
           manager_index3 = 0, workstation_indices3 = [1, 2], coordination_index3 = 3,
           current_index3 = 2, selected_agent3 = Some ''workstation_1'',
           previous_agents_in_cycle_indices = [1, 2, 3]\<rparr>"
  have e2: "AgentSelector2_drive_caught ?o [Reset2, Next2 False False [], Next2 False False []]
     = Inr ([Inr (Some ''manager''), Inr (Some ''workstation_0''), Inr (Some ''workstation_1'')], ?h)"
    by (simp add: sel_defs)
  have e3: "AgentSelector3_drive_caught ?o
       [Reset3, Next3 False [1], Next3 False [1, 1], Next3 False [1, 1]]
     = Inr ([Inr (Some ''manager''), Inl IndexError, Inr (Some ''workstation_0''),
             Inr (Some ''workstation_1'')], ?d)"
    by (simp add: sel_defs)
  note mp2 = manager_preemption [of ?o "[Reset2, Next2 False False [], Next2 False False []]"
      "[Inr (Some ''manager''), Inr (Some ''workstation_0''), Inr (Some ''workstation_1'')]" ?h
      "[''manager'']" False "[''manager'']" False False
      ?o "[Reset3, Next3 False [1], Next3 False [1, 1], Next3 False [1, 1]]"
      "[Inr (Some ''manager''), Inl IndexError, Inr (Some ''workstation_0''),
        Inr (Some ''workstation_1'')]" ?d
      "[0, 1]" "[]"]
  have c2: "\<exists>h' a h''.
      AgentSelector2_next ?h True False [''manager''] = Inr (''manager'', h') \<and>
      current_index2 h' = 0 \<and>
      AgentSelector2_next h' False False [''manager''] = Inr (a, h'') \<and>
      py_getitem (agent_order2 h') (hd (workstation_indices2 h' @ [coordination_index2 h']))
        = Inr a"
    using mp2 [THEN conjunct1] e2 by simp
  have c3: "\<exists>d' active a d''.
      AgentSelector3_next ?d True [] = Inr (Some ''manager'', d') \<and>
      current_index3 d' = 0 \<and>
      previous_agents_in_cycle_indices d' = [] \<and>
      active_workstation_indices d' [0, 1] = Inr active \<and>
      AgentSelector3_next d' False [0, 1] = Inr (Some a, d'') \<and>
      py_getitem (agent_order3 d') (hd (agents_in_cycle_indices d' active)) = Inr a"
    using mp2 [THEN conjunct2] e3 by simp
  from e2 c2 e3 c3 show ?thesis by blast
qed

section \<open>The activity vector of the dynamic cycler\<close>

lemma AgentSelector3_next_active_cong:
  "active_workstation_indices s act = active_workstation_indices s act' \<Longrightarrow>
     AgentSelector3_next s False act = AgentSelector3_next s False act'"
  by (simp add: AgentSelector3_next_def)

lemma active_workstation_indices_take:
  assumes "length (workstation_indices3 s) \<le> length act"
  shows "active_workstation_indices s (take (length (workstation_indices3 s)) act)
           = active_workstation_indices s act"
proof -
  let ?ws = "workstation_indices3 s"
  have "filter (\<lambda>(i, idx). take (length ?ws) act ! i = 1) (List.enumerate 0 ?ws)
          = filter (\<lambda>(i, idx). act ! i = 1) (List.enumerate 0 ?ws)"
    by (rule filter_cong) (auto simp: enumerate_eq_zip in_set_zip)
  then show ?thesis
    using assms by (simp add: active_workstation_indices_long)
qed

text \<open>
  C9 as stated fails: a vector longer than the workstation list is accepted. Driven from
  the constructor, \<^verbatim>\<open>next(False, [1, 0, 1, 1])\<close> on two workstations returns workstation_0
  and records the cycle \<open>[1, 3]\<close>, exactly as \<^verbatim>\<open>[1, 0]\<close> does.
\<close>

theorem activity_vector_longer_accepted:
  "AgentSelector3_drive [''manager'', ''workstation_0'', ''workstation_1'', ''coordination'']
     [Reset3, Next3 False [1, 0, 1, 1]]
   = Inr ([Some ''manager'', Some ''workstation_0''],
          \<lparr>agent_order3 = [''manager'', ''workstation_0'', ''workstation_1'', ''coordination''],
           manager_index3 = 0, workstation_indices3 = [1, 2], coordination_index3 = 3,
           current_index3 = 1, selected_agent3 = Some ''workstation_0'',
           previous_agents_in_cycle_indices = [1, 3]\<rparr>)"
  by (simp add: sel_defs)

text \<open>
  C9 (activity-vector length), amended. In every state, \<^verbatim>\<open>next\<close> with
  \<^verbatim>\<open>manager_act=False\<close> and a vector shorter than the workstation list raises
  \<^verbatim>\<open>IndexError\<close> and leaves the cycler as it was. A vector at least as long is accepted:
  the flags beyond the workstation count are never read, the call behaves as with the
  vector cut to that count, and in a state with the constructor's role indices it returns
  an agent.
\<close>

theorem activity_vector_length:
  "(length workstation_act < length (workstation_indices3 s) \<longrightarrow>
      AgentSelector3_next s False workstation_act = Inl (IndexError, s)) \<and>
   (length (workstation_indices3 s) \<le> length workstation_act \<longrightarrow>
      AgentSelector3_next s False workstation_act =
        AgentSelector3_next s False (take (length (workstation_indices3 s)) workstation_act) \<and>
      (roles_ok3 s \<longrightarrow>
         (\<exists>a s'. AgentSelector3_next s False workstation_act = Inr (Some a, s'))))"
proof (intro conjI impI)
  assume "length workstation_act < length (workstation_indices3 s)"
  then show "AgentSelector3_next s False workstation_act = Inl (IndexError, s)"
    by (simp add: AgentSelector3_next_def active_workstation_indices_short)
next
  assume "length (workstation_indices3 s) \<le> length workstation_act"
  then show "AgentSelector3_next s False workstation_act =
        AgentSelector3_next s False (take (length (workstation_indices3 s)) workstation_act)"
    by (intro AgentSelector3_next_active_cong) (simp add: active_workstation_indices_take)
next
  assume len: "length (workstation_indices3 s) \<le> length workstation_act" and ok: "roles_ok3 s"
  obtain active where "active_workstation_indices s workstation_act = Inr active"
    using len by (simp add: active_workstation_indices_long)
  from AgentSelector3_next_cycle [OF ok this]
  show "\<exists>a s'. AgentSelector3_next s False workstation_act = Inr (Some a, s')"
    by blast
qed

theorem activity_vector_length_witness:
  "AgentSelector3_next
     \<lparr>agent_order3 = [''manager'', ''workstation_0'', ''workstation_1'', ''coordination''],
      manager_index3 = 0, workstation_indices3 = [1, 2], coordination_index3 = 3,
      current_index3 = 0, selected_agent3 = Some ''manager'',
      previous_agents_in_cycle_indices = []\<rparr> False [1]
   = Inl (IndexError,
     \<lparr>agent_order3 = [''manager'', ''workstation_0'', ''workstation_1'', ''coordination''],
      manager_index3 = 0, workstation_indices3 = [1, 2], coordination_index3 = 3,
      current_index3 = 0, selected_agent3 = Some ''manager'',
      previous_agents_in_cycle_indices = []\<rparr>) \<and>
   AgentSelector3_next
     \<lparr>agent_order3 = [''manager'', ''workstation_0'', ''workstation_1'', ''coordination''],
      manager_index3 = 0, workstation_indices3 = [1, 2], coordination_index3 = 3,
      current_index3 = 0, selected_agent3 = Some ''manager'',
      previous_agents_in_cycle_indices = []\<rparr> False [0, 1, 1]
   = AgentSelector3_next
     \<lparr>agent_order3 = [''manager'', ''workstation_0'', ''workstation_1'', ''coordination''],
      manager_index3 = 0, workstation_indices3 = [1, 2], coordination_index3 = 3,
      current_index3 = 0, selected_agent3 = Some ''manager'',
      previous_agents_in_cycle_indices = []\<rparr> False [0, 1] \<and>
   (\<exists>a s'. AgentSelector3_next
     \<lparr>agent_order3 = [''manager'', ''workstation_0'', ''workstation_1'', ''coordination''],
      manager_index3 = 0, workstation_indices3 = [1, 2], coordination_index3 = 3,
      current_index3 = 0, selected_agent3 = Some ''manager'',
      previous_agents_in_cycle_indices = []\<rparr> False [0, 1, 1] = Inr (Some a, s'))"
proof -
  let ?s = "\<lparr>agent_order3 = [''manager'', ''workstation_0'', ''workstation_1'', ''coordination''],
      manager_index3 = 0, workstation_indices3 = [1, 2], coordination_index3 = 3,
      current_index3 = 0, selected_agent3 = Some ''manager'',
      previous_agents_in_cycle_indices = []\<rparr>"
  have ok: "roles_ok3 ?s"
    by (simp add: roles_ok3_def sel_defs)
  have "AgentSelector3_next ?s False [1] = Inl (IndexError, ?s)"
    using activity_vector_length [of "[1]" ?s] by simp
  moreover have len: "length (workstation_indices3 ?s) \<le> length [0, 1, 1 :: int]" by simp
  note r = activity_vector_length [of "[0, 1, 1]" ?s, THEN conjunct2, THEN mp, OF len]
  have tk: "take (length (workstation_indices3 ?s)) [0, 1, 1 :: int] = [0, 1]" by simp
  have "AgentSelector3_next ?s False [0, 1, 1] = AgentSelector3_next ?s False [0, 1]"
    using r [THEN conjunct1] unfolding tk .
  moreover have "\<exists>a s'. AgentSelector3_next ?s False [0, 1, 1] = Inr (Some a, s')"
    using r [THEN conjunct2, THEN mp, OF ok] .
  ultimately show ?thesis by blast
qed

section \<open>Set-change detection in the dynamic cycler\<close>

lemma AgentSelector3_next_same_cycle:
  assumes ok: "roles_ok3 s" and act: "active_workstation_indices s workstation_act = Inr active"
    and same: "agents_in_cycle_indices s active = previous_agents_in_cycle_indices s"
  shows "\<exists>a. AgentSelector3_next s False workstation_act =
           Inr (Some a, s\<lparr>selected_agent3 := Some a, current_index3 := current_index3 s + 1\<rparr>)"
proof -
  have "detect_change s (agents_in_cycle_indices s active) = s"
    using same by (simp add: detect_change_def)
  with AgentSelector3_next_cycle [OF ok act] show ?thesis by auto
qed

lemma AgentSelector3_repeat_same_vector:
  assumes "roles_ok3 s" and "active_workstation_indices s workstation_act = Inr active"
    and "agents_in_cycle_indices s active = previous_agents_in_cycle_indices s"
  shows "\<exists>outs sn.
           AgentSelector3_run (replicate n (Next3 False workstation_act)) s = Inr (outs, sn) \<and>
           current_index3 sn = current_index3 s + int n \<and>
           previous_agents_in_cycle_indices sn = previous_agents_in_cycle_indices s"
  using assms
proof (induction n arbitrary: s)
  case 0
  then show ?case by (simp add: AgentSelector3_run_def)
next
  case (Suc n)
  from AgentSelector3_next_same_cycle [OF Suc.prems] obtain a where
    step: "AgentSelector3_next s False workstation_act =
           Inr (Some a, s\<lparr>selected_agent3 := Some a, current_index3 := current_index3 s + 1\<rparr>)"
    by blast
  let ?s' = "s\<lparr>selected_agent3 := Some a, current_index3 := current_index3 s + 1\<rparr>"
  have ok': "roles_ok3 ?s'" using Suc.prems(1) by (simp add: roles_ok3_def)
  have act': "active_workstation_indices ?s' workstation_act = Inr active"
    using Suc.prems(2) by (simp add: active_workstation_indices_def)
  have same': "agents_in_cycle_indices ?s' active = previous_agents_in_cycle_indices ?s'"
    using Suc.prems(3) by (auto simp: agents_in_cycle_indices_def)
  from Suc.IH [OF ok' act' same'] obtain outs sn where
    "AgentSelector3_run (replicate n (Next3 False workstation_act)) ?s' = Inr (outs, sn)"
    "current_index3 sn = current_index3 ?s' + int n"
    "previous_agents_in_cycle_indices sn = previous_agents_in_cycle_indices ?s'"
    by blast
  then show ?case
    using step by (simp add: AgentSelector3_run_def)
qed

text \<open>
  C4 (set-change detection). Take any state with the constructor's role indices, whatever
  its position and recorded cycle, and a call \<^verbatim>\<open>next(False, workstation_act)\<close> whose
  vector covers every workstation. The call returns an agent and leaves the computed
  eligible cycle recorded. If that cycle differs as a list from the recorded one (a
  permutation of it included), the position is set to 0 before the selection: the agent
  returned is the one at the first index of the new cycle and the position after the call
  is 1. If it is the same list, the position is only incremented. After the call, any
  number \<open>n\<close> of further calls with the same vector succeed, leave the recorded cycle as
  it is and leave the position exactly \<open>n\<close> higher: it grows by one per call and is
  never reset.
\<close>

theorem set_change_detection:
  "roles_ok3 s \<and> length (workstation_indices3 s) \<le> length workstation_act \<longrightarrow>
   (\<exists>active a s1.
      active_workstation_indices s workstation_act = Inr active \<and>
      AgentSelector3_next s False workstation_act = Inr (Some a, s1) \<and>
      previous_agents_in_cycle_indices s1 = agents_in_cycle_indices s active \<and>
      (agents_in_cycle_indices s active \<noteq> previous_agents_in_cycle_indices s \<longrightarrow>
         current_index3 (detect_change s (agents_in_cycle_indices s active)) = 0 \<and>
         py_getitem (agent_order3 s) (hd (agents_in_cycle_indices s active)) = Inr a \<and>
         current_index3 s1 = 1) \<and>
      (agents_in_cycle_indices s active = previous_agents_in_cycle_indices s \<longrightarrow>
         current_index3 s1 = current_index3 s + 1) \<and>
      (\<forall>n. \<exists>outs sn.
         AgentSelector3_run (replicate n (Next3 False workstation_act)) s1 = Inr (outs, sn) \<and>
         current_index3 sn = current_index3 s1 + int n \<and>
         previous_agents_in_cycle_indices sn = previous_agents_in_cycle_indices s1))"
proof
  assume A: "roles_ok3 s \<and> length (workstation_indices3 s) \<le> length workstation_act"
  then have ok: "roles_ok3 s" by simp
  obtain active where act: "active_workstation_indices s workstation_act = Inr active"
    using A by (simp add: active_workstation_indices_long)
  let ?cyc = "agents_in_cycle_indices s active"
  let ?d = "detect_change s ?cyc"
  from AgentSelector3_next_cycle [OF ok act] obtain a where
    g: "py_getitem (agent_order3 s) (?cyc ! nat (current_index3 ?d mod int (length ?cyc))) = Inr a"
    and n: "AgentSelector3_next s False workstation_act =
              Inr (Some a, ?d\<lparr>selected_agent3 := Some a, current_index3 := current_index3 ?d + 1\<rparr>)"
    by blast
  let ?s1 = "?d\<lparr>selected_agent3 := Some a, current_index3 := current_index3 ?d + 1\<rparr>"
  have ne: "?cyc \<noteq> []" by (rule agents_in_cycle_indices_nonempty)
  have prev: "previous_agents_in_cycle_indices ?s1 = ?cyc"
    by (simp add: detect_change_def)
  have changed: "?cyc \<noteq> previous_agents_in_cycle_indices s \<longrightarrow>
         current_index3 ?d = 0 \<and>
         py_getitem (agent_order3 s) (hd ?cyc) = Inr a \<and>
         current_index3 ?s1 = 1"
  proof
    assume c: "?cyc \<noteq> previous_agents_in_cycle_indices s"
    then have z: "current_index3 ?d = 0" by (simp add: detect_change_def)
    have "?cyc ! 0 = hd ?cyc" using ne by (simp add: hd_conv_nth)
    with g z show "current_index3 ?d = 0 \<and>
         py_getitem (agent_order3 s) (hd ?cyc) = Inr a \<and>
         current_index3 ?s1 = 1"
      by simp
  qed
  have unchanged: "?cyc = previous_agents_in_cycle_indices s \<longrightarrow>
         current_index3 ?s1 = current_index3 s + 1"
    by (simp add: detect_change_def)
  have ok1: "roles_ok3 ?s1" using ok n by (rule roles_ok3_next)
  have act1: "active_workstation_indices ?s1 workstation_act = Inr active"
    using act by (simp add: active_workstation_indices_def detect_change_def)
  have same1: "agents_in_cycle_indices ?s1 active = previous_agents_in_cycle_indices ?s1"
    unfolding prev by (auto simp: agents_in_cycle_indices_def detect_change_def)
  have rep: "\<forall>n. \<exists>outs sn.
         AgentSelector3_run (replicate n (Next3 False workstation_act)) ?s1 = Inr (outs, sn) \<and>
         current_index3 sn = current_index3 ?s1 + int n \<and>
         previous_agents_in_cycle_indices sn = previous_agents_in_cycle_indices ?s1"
    using AgentSelector3_repeat_same_vector [OF ok1 act1 same1] by blast
  show "\<exists>active a s1.
      active_workstation_indices s workstation_act = Inr active \<and>
      AgentSelector3_next s False workstation_act = Inr (Some a, s1) \<and>
      previous_agents_in_cycle_indices s1 = agents_in_cycle_indices s active \<and>
      (agents_in_cycle_indices s active \<noteq> previous_agents_in_cycle_indices s \<longrightarrow>
         current_index3 (detect_change s (agents_in_cycle_indices s active)) = 0 \<and>
         py_getitem (agent_order3 s) (hd (agents_in_cycle_indices s active)) = Inr a \<and>
         current_index3 s1 = 1) \<and>
      (agents_in_cycle_indices s active = previous_agents_in_cycle_indices s \<longrightarrow>
         current_index3 s1 = current_index3 s + 1) \<and>
      (\<forall>n. \<exists>outs sn.
         AgentSelector3_run (replicate n (Next3 False workstation_act)) s1 = Inr (outs, sn) \<and>
         current_index3 sn = current_index3 s1 + int n \<and>
         previous_agents_in_cycle_indices sn = previous_agents_in_cycle_indices s1)"
    apply (rule exI [of _ active], rule exI [of _ a], rule exI [of _ ?s1])
    using act n prev changed unchanged rep by blast
qed


theorem set_change_detection_witness:
  "roles_ok3
     \<lparr>agent_order3 = [''manager'', ''workstation_0'', ''workstation_1'', ''coordination''],
      manager_index3 = 0, workstation_indices3 = [1, 2], coordination_index3 = 3,
      current_index3 = 5, selected_agent3 = Some ''coordination'',
      previous_agents_in_cycle_indices = [3, 1]\<rparr> \<and>
   AgentSelector3_next
     \<lparr>agent_order3 = [''manager'', ''workstation_0'', ''workstation_1'', ''coordination''],
      manager_index3 = 0, workstation_indices3 = [1, 2], coordination_index3 = 3,
      current_index3 = 5, selected_agent3 = Some ''coordination'',
      previous_agents_in_cycle_indices = [3, 1]\<rparr> False [1, 0]
   = Inr (Some ''workstation_0'',
      \<lparr>agent_order3 = [''manager'', ''workstation_0'', ''workstation_1'', ''coordination''],
       manager_index3 = 0, workstation_indices3 = [1, 2], coordination_index3 = 3,
       current_index3 = 1, selected_agent3 = Some ''workstation_0'',
       previous_agents_in_cycle_indices = [1, 3]\<rparr>) \<and>
   (\<exists>outs sn.
      AgentSelector3_run (replicate 3 (Next3 False [1, 0]))
        \<lparr>agent_order3 = [''manager'', ''workstation_0'', ''workstation_1'', ''coordination''],
         manager_index3 = 0, workstation_indices3 = [1, 2], coordination_index3 = 3,
         current_index3 = 1, selected_agent3 = Some ''workstation_0'',
         previous_agents_in_cycle_indices = [1, 3]\<rparr> = Inr (outs, sn) \<and>
      current_index3 sn = 4 \<and>
      previous_agents_in_cycle_indices sn = [1, 3])"
proof -
  let ?o = "[''manager'', ''workstation_0'', ''workstation_1'', ''coordination'']"
  let ?s = "\<lparr>agent_order3 = ?o,
      manager_index3 = 0, workstation_indices3 = [1, 2], coordination_index3 = 3,
      current_index3 = 5, selected_agent3 = Some ''coordination'',
      previous_agents_in_cycle_indices = [3, 1]\<rparr>"
  let ?s1 = "\<lparr>agent_order3 = ?o,
       manager_index3 = 0, workstation_indices3 = [1, 2], coordination_index3 = 3,
       current_index3 = 1, selected_agent3 = Some ''workstation_0'',
       previous_agents_in_cycle_indices = [1, 3]\<rparr>"
  have ok: "roles_ok3 ?s" by (simp add: roles_ok3_def sel_defs)
  have len: "length (workstation_indices3 ?s) \<le> length [1, 0 :: int]" by simp
  have ev: "AgentSelector3_next ?s False [1, 0] = Inr (Some ''workstation_0'', ?s1)"
    by (simp add: sel_defs)
  from set_change_detection [of ?s "[1, 0]", THEN mp, OF conjI [OF ok len]]
  obtain active a s1 where
    n: "AgentSelector3_next ?s False [1, 0] = Inr (Some a, s1)"
    and rep: "\<forall>n. \<exists>outs sn.
         AgentSelector3_run (replicate n (Next3 False [1, 0])) s1 = Inr (outs, sn) \<and>
         current_index3 sn = current_index3 s1 + int n \<and>
         previous_agents_in_cycle_indices sn = previous_agents_in_cycle_indices s1"
    by blast
  from n ev have s1: "s1 = ?s1" by auto
  from rep [rule_format, of 3] obtain outs sn where
    "AgentSelector3_run (replicate 3 (Next3 False [1, 0])) s1 = Inr (outs, sn)"
    "current_index3 sn = current_index3 s1 + int 3"
    "previous_agents_in_cycle_indices sn = previous_agents_in_cycle_indices s1"
    by blast
  then have "\<exists>outs sn.
      AgentSelector3_run (replicate 3 (Next3 False [1, 0])) ?s1 = Inr (outs, sn) \<and>
      current_index3 sn = 4 \<and>
      previous_agents_in_cycle_indices sn = [1, 3]"
    unfolding s1 by (intro exI [of _ outs] exI [of _ sn]) simp
  with ok ev show ?thesis by blast
qed

section \<open>Equality under identical drive\<close>

text \<open>
  The selectors are deterministic: the same order and the same calls give the same state,
  and for the first two classes \<^verbatim>\<open>__eq__\<close> of a state with itself is \<^verbatim>\<open>True\<close>.
\<close>

lemma AgentSelector_eq_identical_drive:
  assumes "AgentSelector_drive order calls = Inr (outs, a)"
    and "AgentSelector_drive order calls = Inr (outs', b)"
  shows "py_eq (i, IsAgentSelector a) (j, IsAgentSelector b)"
  using assms by (simp add: py_eq_def AgentSelector_eq_def)

lemma AgentSelector2_eq_identical_drive:
  assumes "AgentSelector2_drive order calls = Inr (outs, a)"
    and "AgentSelector2_drive order calls = Inr (outs', b)"
  shows "py_eq (i, IsAgentSelector2 a) (j, IsAgentSelector2 b)"
  using assms by (simp add: py_eq_def AgentSelector2_eq_def)

text \<open>
  In the third class \<^verbatim>\<open>__eq__\<close> answers \<^verbatim>\<open>NotImplemented\<close> to every \<^verbatim>\<open>AgentSelector3\<close>,
  so \<^verbatim>\<open>==\<close> between two of them is object identity.
\<close>

lemma AgentSelector3_py_eq_identity:
  "py_eq (i, IsAgentSelector3 a) (j, IsAgentSelector3 b) \<longleftrightarrow> i = j"
  by (simp add: py_eq_def AgentSelector3_eq_def)

text \<open>
  C5 (equality under identical drive) holds for the first two classes (the two lemmas
  above) and fails for the third: two \<^verbatim>\<open>AgentSelector3\<close> objects (identities 1 and 2)
  constructed with the same order and driven by the same calls hold the same state, yet
  \<^verbatim>\<open>__eq__\<close> returns \<^verbatim>\<open>NotImplemented\<close> and \<^verbatim>\<open>==\<close> is \<^verbatim>\<open>False\<close>.
\<close>

theorem AgentSelector3_identical_drive_unequal:
  "AgentSelector3_drive [''manager'', ''workstation_0'', ''workstation_1'', ''coordination'']
     [Reset3, Next3 False [1, 0]]
   = Inr ([Some ''manager'', Some ''workstation_0''],
          \<lparr>agent_order3 = [''manager'', ''workstation_0'', ''workstation_1'', ''coordination''],
           manager_index3 = 0, workstation_indices3 = [1, 2], coordination_index3 = 3,
           current_index3 = 1, selected_agent3 = Some ''workstation_0'',
           previous_agents_in_cycle_indices = [1, 3]\<rparr>) \<and>
   AgentSelector3_eq
     \<lparr>agent_order3 = [''manager'', ''workstation_0'', ''workstation_1'', ''coordination''],
      manager_index3 = 0, workstation_indices3 = [1, 2], coordination_index3 = 3,
      current_index3 = 1, selected_agent3 = Some ''workstation_0'',
      previous_agents_in_cycle_indices = [1, 3]\<rparr>
     (IsAgentSelector3
        \<lparr>agent_order3 = [''manager'', ''workstation_0'', ''workstation_1'', ''coordination''],
         manager_index3 = 0, workstation_indices3 = [1, 2], coordination_index3 = 3,
         current_index3 = 1, selected_agent3 = Some ''workstation_0'',
         previous_agents_in_cycle_indices = [1, 3]\<rparr>) = NotImplemented \<and>
   py_eq
     (1, IsAgentSelector3
        \<lparr>agent_order3 = [''manager'', ''workstation_0'', ''workstation_1'', ''coordination''],
         manager_index3 = 0, workstation_indices3 = [1, 2], coordination_index3 = 3,
         current_index3 = 1, selected_agent3 = Some ''workstation_0'',
         previous_agents_in_cycle_indices = [1, 3]\<rparr>)
     (2, IsAgentSelector3
        \<lparr>agent_order3 = [''manager'', ''workstation_0'', ''workstation_1'', ''coordination''],
         manager_index3 = 0, workstation_indices3 = [1, 2], coordination_index3 = 3,
         current_index3 = 1, selected_agent3 = Some ''workstation_0'',
         previous_agents_in_cycle_indices = [1, 3]\<rparr>) = False"
  by (simp add: sel_defs py_eq_def AgentSelector3_eq_def)

section \<open>What the constructors accept\<close>

text \<open>
  C6 as stated fails: the fixed-order cycler is constructed with an empty order and only
  its first \<^verbatim>\<open>next()\<close> raises; it is constructed with a duplicate; and the hierarchical
  cycler is constructed with the manager named twice.
\<close>

theorem construction_accepts_empty_and_duplicates:
  "AgentSelector_init [] = \<lparr>agent_order = [], current_agent = 0, selected_agent = PyInt 0\<rparr> \<and>
   AgentSelector_next (AgentSelector_init []) = Inl (ZeroDivisionError, AgentSelector_init []) \<and>
   AgentSelector_init [PyStr ''a'', PyStr ''a'']
     = \<lparr>agent_order = [PyStr ''a'', PyStr ''a''], current_agent = 0, selected_agent = PyInt 0\<rparr> \<and>
   AgentSelector2_init [''manager'', ''manager'', ''coordination'']
     = Inr \<lparr>agent_order2 = [''manager'', ''manager'', ''coordination''], manager_index2 = 0,
            workstation_indices2 = [], coordination_index2 = 2, current_index2 = 0,
            selected_agent2 = None\<rparr>"
  by (simp add: AgentSelector_init_def AgentSelector_reinit_def AgentSelector_next_def
      py_mod_def sel_defs)

text \<open>
  C6 (construction errors), amended. The hierarchical and the dynamic cycler reject, in
  the constructor or \<^verbatim>\<open>reinit\<close> call itself and with \<^verbatim>\<open>ValueError\<close>, every order that lacks
  the manager or the coordination identifier, the empty order among them (a \<^verbatim>\<open>reinit\<close>
  that raises has stored the order by then); they accept every order that holds both,
  duplicates or not, and store it. The fixed-order cycler
  stores every order it is given, the empty one too; with an empty order \<^verbatim>\<open>next()\<close> and
  \<^verbatim>\<open>reset()\<close> raise \<^verbatim>\<open>ZeroDivisionError\<close>.
\<close>

theorem construction_errors:
  "(''manager'' \<notin> set order \<or> ''coordination'' \<notin> set order \<longrightarrow>
      AgentSelector2_init order = Inl ValueError \<and>
      (\<exists>s'. AgentSelector2_reinit s2 order = Inl (ValueError, s') \<and> agent_order2 s' = order) \<and>
      AgentSelector3_init order = Inl ValueError \<and>
      (\<exists>s'. AgentSelector3_reinit s3 order = Inl (ValueError, s') \<and> agent_order3 s' = order)) \<and>
   (''manager'' \<in> set order \<and> ''coordination'' \<in> set order \<longrightarrow>
      (\<exists>a b c d.
         AgentSelector2_init order = Inr a \<and> agent_order2 a = order \<and>
         AgentSelector2_reinit s2 order = Inr b \<and> agent_order2 b = order \<and>
         AgentSelector3_init order = Inr c \<and> agent_order3 c = order \<and>
         AgentSelector3_reinit s3 order = Inr d \<and> agent_order3 d = order)) \<and>
   agent_order (AgentSelector_init order1) = order1 \<and>
   agent_order (AgentSelector_reinit s1 order1) = order1 \<and>
   AgentSelector_next (AgentSelector_reinit s1 []) =
     Inl (ZeroDivisionError, AgentSelector_reinit s1 []) \<and>
   AgentSelector_reset (AgentSelector_reinit s1 []) =
     Inl (ZeroDivisionError, AgentSelector_reinit s1 [])"
proof (intro conjI impI)
  assume "''manager'' \<notin> set order \<or> ''coordination'' \<notin> set order"
  then have miss: "py_index order ''manager'' = Inl ValueError \<or>
      (\<exists>m. py_index order ''manager'' = Inr m \<and> py_index order ''coordination'' = Inl ValueError)"
  proof (cases "''manager'' \<in> set order")
    case True
    from py_index_mem [OF True] obtain m where "py_index order ''manager'' = Inr m" ..
    moreover have "py_index order ''coordination'' = Inl ValueError"
      using True \<open>''manager'' \<notin> set order \<or> ''coordination'' \<notin> set order\<close>
      by (simp add: py_index_Inl)
    ultimately show ?thesis by simp
  next
    case False
    then show ?thesis by (simp add: py_index_Inl)
  qed
  from miss show "AgentSelector2_init order = Inl ValueError"
    by (auto simp: AgentSelector2_init_def)
  from miss show "\<exists>s'. AgentSelector2_reinit s2 order = Inl (ValueError, s') \<and> agent_order2 s' = order"
    by (auto simp: AgentSelector2_reinit_def)
  from miss show "AgentSelector3_init order = Inl ValueError"
    by (auto simp: AgentSelector3_init_def)
  from miss show "\<exists>s'. AgentSelector3_reinit s3 order = Inl (ValueError, s') \<and> agent_order3 s' = order"
    by (auto simp: AgentSelector3_reinit_def)
next
  assume both: "''manager'' \<in> set order \<and> ''coordination'' \<in> set order"
  from py_index_mem [OF both [THEN conjunct1]] obtain m where
    "py_index order ''manager'' = Inr m" ..
  moreover from py_index_mem [OF both [THEN conjunct2]] obtain c where
    "py_index order ''coordination'' = Inr c" ..
  ultimately show "\<exists>a b c d.
         AgentSelector2_init order = Inr a \<and> agent_order2 a = order \<and>
         AgentSelector2_reinit s2 order = Inr b \<and> agent_order2 b = order \<and>
         AgentSelector3_init order = Inr c \<and> agent_order3 c = order \<and>
         AgentSelector3_reinit s3 order = Inr d \<and> agent_order3 d = order"
    by (simp add: AgentSelector2_init_def AgentSelector2_reinit_def
        AgentSelector3_init_def AgentSelector3_reinit_def)
qed (simp_all add: AgentSelector_init_def AgentSelector_reinit_def AgentSelector_next_def
    AgentSelector_reset_def py_mod_def)

theorem construction_errors_witness:
  "AgentSelector2_init [] = Inl ValueError \<and>
   AgentSelector3_init [''manager'', ''workstation_0''] = Inl ValueError \<and>
   (\<exists>a c. AgentSelector2_init [''manager'', ''coordination'', ''coordination''] = Inr a \<and>
      agent_order2 a = [''manager'', ''coordination'', ''coordination''] \<and>
      AgentSelector3_init [''manager'', ''coordination'', ''coordination''] = Inr c \<and>
      agent_order3 c = [''manager'', ''coordination'', ''coordination''])"
proof -
  let ?s1 = "\<lparr>agent_order = [], current_agent = 0, selected_agent = PyNone\<rparr>"
  let ?s2 = "\<lparr>agent_order2 = [], manager_index2 = 0, workstation_indices2 = [],
        coordination_index2 = 0, current_index2 = 0, selected_agent2 = None\<rparr>"
  let ?s3 = "\<lparr>agent_order3 = [], manager_index3 = 0, workstation_indices3 = [],
        coordination_index3 = 0, current_index3 = 0, selected_agent3 = None,
        previous_agents_in_cycle_indices = []\<rparr>"
  have m1: "''manager'' \<notin> set ([] :: string list) \<or> ''coordination'' \<notin> set ([] :: string list)"
    by simp
  have m2: "''manager'' \<notin> set [''manager'', ''workstation_0'']
      \<or> ''coordination'' \<notin> set [''manager'', ''workstation_0'']"
    by simp
  have m3: "''manager'' \<in> set [''manager'', ''coordination'', ''coordination'']
      \<and> ''coordination'' \<in> set [''manager'', ''coordination'', ''coordination'']"
    by simp
  have w1: "AgentSelector2_init [] = Inl ValueError"
    using construction_errors [of "[]" ?s2 ?s3 "[]" ?s1, THEN conjunct1, THEN mp, OF m1]
    by blast
  have w2: "AgentSelector3_init [''manager'', ''workstation_0''] = Inl ValueError"
    using construction_errors [of "[''manager'', ''workstation_0'']" ?s2 ?s3 "[]" ?s1,
        THEN conjunct1, THEN mp, OF m2]
    by blast
  have w3: "\<exists>a c. AgentSelector2_init [''manager'', ''coordination'', ''coordination''] = Inr a \<and>
      agent_order2 a = [''manager'', ''coordination'', ''coordination''] \<and>
      AgentSelector3_init [''manager'', ''coordination'', ''coordination''] = Inr c \<and>
      agent_order3 c = [''manager'', ''coordination'', ''coordination'']"
    using construction_errors [of "[''manager'', ''coordination'', ''coordination'']" ?s2 ?s3
        "[]" ?s1, THEN conjunct2, THEN conjunct1, THEN mp, OF m3]
    by blast
  show ?thesis
    by (intro conjI) (rule w1, rule w2, rule w3)
qed

section \<open>Bounds on the stored position\<close>

lemma AgentSelector_next_position:
  assumes "AgentSelector_next s = Inr (a, s')"
  shows "agent_order s' = agent_order s \<and> agent_order s \<noteq> [] \<and>
         0 \<le> current_agent s' \<and> current_agent s' < int (length (agent_order s))"
proof -
  let ?n = "int (length (agent_order s))"
  from assms have ne: "?n \<noteq> 0"
    by (auto simp: AgentSelector_next_def py_mod_def split: if_splits)
  then have pos: "0 < ?n" by simp
  from assms ne have "current_agent s' = (current_agent s + 1) mod ?n"
    and "agent_order s' = agent_order s"
    by (auto simp: AgentSelector_next_def py_mod_def split: sum.splits)
  then show ?thesis
    using pos pos_mod_sign [OF pos] pos_mod_bound [OF pos] by auto
qed

lemma AgentSelector_call_position:
  assumes "0 \<le> current_agent s \<and> (agent_order s \<noteq> [] \<longrightarrow> current_agent s < int (length (agent_order s)))"
    and "AgentSelector_call c s = Inr (r, s')"
  shows "0 \<le> current_agent s' \<and> (agent_order s' \<noteq> [] \<longrightarrow> current_agent s' < int (length (agent_order s')))"
proof (cases c)
  case (Reinit1 order)
  with assms(2) show ?thesis by (auto simp: AgentSelector_reinit_def)
next
  case Reset1
  with assms(2) have "AgentSelector_next (AgentSelector_reinit s (agent_order s)) = Inr (r, s')"
    by (simp add: AgentSelector_reset_def)
  from AgentSelector_next_position [OF this] show ?thesis
    by (simp add: AgentSelector_reinit_def)
next
  case Next1
  with assms(2) have "AgentSelector_next s = Inr (r, s')" by simp
  from AgentSelector_next_position [OF this] show ?thesis by simp
qed

lemma AgentSelector2_call_position:
  assumes "0 \<le> current_index2 s" and "AgentSelector2_call c s = Inr (r, s')"
  shows "0 \<le> current_index2 s'"
proof (cases c)
  case (Reinit2 order)
  with assms(2) show ?thesis
    by (auto simp: AgentSelector2_reinit_def split: sum.splits)
next
  case Reset2
  with assms(2) show ?thesis
    by (auto simp: AgentSelector2_reset_def split: sum.splits)
next
  case (Next2 m co act)
  with assms show ?thesis
    by (auto simp: AgentSelector2_next_def Let_def split: sum.splits if_splits)
qed

lemma AgentSelector3_call_position:
  assumes "0 \<le> current_index3 s" and "AgentSelector3_call c s = Inr (r, s')"
  shows "0 \<le> current_index3 s'"
proof (cases c)
  case (Reinit3 order)
  with assms(2) show ?thesis
    by (auto simp: AgentSelector3_reinit_def split: sum.splits)
next
  case Reset3
  with assms(2) show ?thesis
    by (auto simp: AgentSelector3_reset_def split: sum.splits)
next
  case (Next3 m act)
  with assms show ?thesis
    by (auto simp: AgentSelector3_next_def detect_change_def Let_def
        split: sum.splits if_splits)
qed

text \<open>
  C7 as stated fails in the hierarchical cycler: constructed on manager, workstation_0,
  coordination and advanced three times without the manager, the stored position is 3,
  outside \<open>[0, 2)\<close> for the sub-cycle of one workstation and coordination and outside
  \<open>[0, 3)\<close> for the order.
\<close>

theorem position_exceeds_cycle_length:
  "AgentSelector2_drive [''manager'', ''workstation_0'', ''coordination'']
     [Reset2, Next2 False False [], Next2 False False [], Next2 False False []]
   = Inr ([Some ''manager'', Some ''workstation_0'', Some ''coordination'', Some ''workstation_0''],
          \<lparr>agent_order2 = [''manager'', ''workstation_0'', ''coordination''], manager_index2 = 0,
           workstation_indices2 = [1], coordination_index2 = 2, current_index2 = 3,
           selected_agent2 = Some ''workstation_0''\<rparr>) \<and>
   \<not> (3 :: int) < int (length ([1 :: int] @ [2])) \<and>
   \<not> (3 :: int) < int (length [''manager'', ''workstation_0'', ''coordination''])"
  by (simp add: sel_defs)

text \<open>
  C7 (position bound), amended. After any call sequence on a constructed fixed-order
  cycler the position is non-negative and, when the stored order is non-empty, below its
  length. After any call sequence on a constructed hierarchical or dynamic cycler the
  position is non-negative, and that is all: a \<^verbatim>\<open>next\<close> that does not take the manager
  branch stores the position it used plus one, with no wraparound (in the dynamic cycler
  the position used is 0 when the eligible cycle changed), so the stored position is
  not bounded by the cycle length.
\<close>

theorem position_bounds:
  "(AgentSelector_drive order1 calls1 = Inr (outs1, f) \<longrightarrow>
      0 \<le> current_agent f \<and>
      (agent_order f \<noteq> [] \<longrightarrow> current_agent f < int (length (agent_order f)))) \<and>
   (AgentSelector2_drive order2 calls2 = Inr (outs2, h) \<longrightarrow>
      0 \<le> current_index2 h \<and>
      (\<not> (manager_act \<and> ''manager'' \<in> set active_agents) \<longrightarrow>
         (\<exists>a h'. AgentSelector2_next h manager_act coordination_act active_agents = Inr (a, h') \<and>
            current_index2 h' = current_index2 h + 1))) \<and>
   (AgentSelector3_drive order3 calls3 = Inr (outs3, d) \<longrightarrow>
      0 \<le> current_index3 d \<and>
      (length (workstation_indices3 d) \<le> length workstation_act \<longrightarrow>
         (\<exists>active a d'.
            active_workstation_indices d workstation_act = Inr active \<and>
            AgentSelector3_next d False workstation_act = Inr (a, d') \<and>
            current_index3 d' =
              (if agents_in_cycle_indices d active = previous_agents_in_cycle_indices d
               then current_index3 d + 1 else 1))))"
proof (intro conjI impI)
  assume "AgentSelector_drive order1 calls1 = Inr (outs1, f)"
  then have run: "run_calls AgentSelector_call calls1 (AgentSelector_init order1) = Inr (outs1, f)"
    by (simp add: AgentSelector_drive_def AgentSelector_run_def)
  let ?I = "\<lambda>s. 0 \<le> current_agent s \<and>
      (agent_order s \<noteq> [] \<longrightarrow> current_agent s < int (length (agent_order s)))"
  have "?I (AgentSelector_init order1)"
    by (auto simp: AgentSelector_init_def AgentSelector_reinit_def)
  with run have "?I f"
    using run_calls_invariant [of ?I AgentSelector_call "AgentSelector_init order1" calls1 outs1 f]
      AgentSelector_call_position
    by blast
  then show "0 \<le> current_agent f" by simp
  assume "agent_order f \<noteq> []"
  with \<open>?I f\<close> show "current_agent f < int (length (agent_order f))" by simp
next
  assume drv: "AgentSelector2_drive order2 calls2 = Inr (outs2, h)"
  then obtain s0 where s0: "AgentSelector2_init order2 = Inr s0"
    and run: "run_calls AgentSelector2_call calls2 s0 = Inr (outs2, h)"
    by (auto simp: AgentSelector2_drive_def AgentSelector2_run_def split: sum.splits)
  have "0 \<le> current_index2 s0"
    using s0 by (auto simp: AgentSelector2_init_def AgentSelector2_reinit_def split: sum.splits)
  with run show "0 \<le> current_index2 h"
    using run_calls_invariant [of "\<lambda>s. 0 \<le> current_index2 s" AgentSelector2_call s0 calls2 outs2 h]
      AgentSelector2_call_position
    by blast
  assume nm: "\<not> (manager_act \<and> ''manager'' \<in> set active_agents)"
  from AgentSelector2_next_cycle [OF roles_ok2_drive [OF drv] nm, of coordination_act]
  obtain a where "AgentSelector2_next h manager_act coordination_act active_agents =
      Inr (a, h\<lparr>selected_agent2 := Some a, current_index2 := current_index2 h + 1\<rparr>)"
    by auto
  then show "\<exists>a h'. AgentSelector2_next h manager_act coordination_act active_agents = Inr (a, h') \<and>
            current_index2 h' = current_index2 h + 1"
    by simp
next
  assume drv: "AgentSelector3_drive order3 calls3 = Inr (outs3, d)"
  then obtain s0 where s0: "AgentSelector3_init order3 = Inr s0"
    and run: "run_calls AgentSelector3_call calls3 s0 = Inr (outs3, d)"
    by (auto simp: AgentSelector3_drive_def AgentSelector3_run_def split: sum.splits)
  have "0 \<le> current_index3 s0"
    using s0 by (auto simp: AgentSelector3_init_def AgentSelector3_reinit_def split: sum.splits)
  with run show "0 \<le> current_index3 d"
    using run_calls_invariant [of "\<lambda>s. 0 \<le> current_index3 s" AgentSelector3_call s0 calls3 outs3 d]
      AgentSelector3_call_position
    by blast
  assume len: "length (workstation_indices3 d) \<le> length workstation_act"
  then obtain active where act: "active_workstation_indices d workstation_act = Inr active"
    by (simp add: active_workstation_indices_long)
  let ?cyc = "agents_in_cycle_indices d active"
  from AgentSelector3_next_cycle [OF roles_ok3_drive [OF drv] act]
  obtain a where n: "AgentSelector3_next d False workstation_act =
      Inr (Some a, (detect_change d ?cyc)
             \<lparr>selected_agent3 := Some a,
              current_index3 := current_index3 (detect_change d ?cyc) + 1\<rparr>)"
    by auto
  let ?d' = "(detect_change d ?cyc)
             \<lparr>selected_agent3 := Some a,
              current_index3 := current_index3 (detect_change d ?cyc) + 1\<rparr>"
  have "current_index3 ?d' =
      (if ?cyc = previous_agents_in_cycle_indices d then current_index3 d + 1 else 1)"
    by (simp add: detect_change_def)
  with act n show "\<exists>active a d'.
            active_workstation_indices d workstation_act = Inr active \<and>
            AgentSelector3_next d False workstation_act = Inr (a, d') \<and>
            current_index3 d' =
              (if agents_in_cycle_indices d active = previous_agents_in_cycle_indices d
               then current_index3 d + 1 else 1)"
    by (intro exI [of _ active] exI [of _ "Some a"] exI [of _ ?d']) simp
qed


theorem position_bounds_witness:
  "AgentSelector_drive [PyStr ''a'', PyStr ''b''] [Reset1, Next1, Next1]
   = Inr ([PyStr ''a'', PyStr ''b'', PyStr ''a''],
          \<lparr>agent_order = [PyStr ''a'', PyStr ''b''], current_agent = 1,
           selected_agent = PyStr ''a''\<rparr>) \<and>
   current_agent \<lparr>agent_order = [PyStr ''a'', PyStr ''b''], current_agent = 1,
           selected_agent = PyStr ''a''\<rparr>
     < int (length (agent_order \<lparr>agent_order = [PyStr ''a'', PyStr ''b''], current_agent = 1,
           selected_agent = PyStr ''a''\<rparr>)) \<and>
   AgentSelector2_drive [''manager'', ''workstation_0'', ''coordination'']
     [Reset2, Next2 False False [], Next2 False False [], Next2 False False []]
   = Inr ([Some ''manager'', Some ''workstation_0'', Some ''coordination'', Some ''workstation_0''],
          \<lparr>agent_order2 = [''manager'', ''workstation_0'', ''coordination''], manager_index2 = 0,
           workstation_indices2 = [1], coordination_index2 = 2, current_index2 = 3,
           selected_agent2 = Some ''workstation_0''\<rparr>) \<and>
   (\<exists>a h'. AgentSelector2_next
        \<lparr>agent_order2 = [''manager'', ''workstation_0'', ''coordination''], manager_index2 = 0,
         workstation_indices2 = [1], coordination_index2 = 2, current_index2 = 3,
         selected_agent2 = Some ''workstation_0''\<rparr> False False [] = Inr (a, h') \<and>
      current_index2 h' = 4) \<and>
   AgentSelector3_drive [''manager'', ''workstation_0'', ''workstation_1'', ''coordination'']
     [Reset3, Next3 False [1, 0]]
   = Inr ([Some ''manager'', Some ''workstation_0''],
          \<lparr>agent_order3 = [''manager'', ''workstation_0'', ''workstation_1'', ''coordination''],
           manager_index3 = 0, workstation_indices3 = [1, 2], coordination_index3 = 3,
           current_index3 = 1, selected_agent3 = Some ''workstation_0'',
           previous_agents_in_cycle_indices = [1, 3]\<rparr>) \<and>
   (\<exists>a d'. AgentSelector3_next
        \<lparr>agent_order3 = [''manager'', ''workstation_0'', ''workstation_1'', ''coordination''],
         manager_index3 = 0, workstation_indices3 = [1, 2], coordination_index3 = 3,
         current_index3 = 1, selected_agent3 = Some ''workstation_0'',
         previous_agents_in_cycle_indices = [1, 3]\<rparr> False [1, 0] = Inr (a, d') \<and>
      current_index3 d' = 2)"
proof -
  let ?f = "\<lparr>agent_order = [PyStr ''a'', PyStr ''b''], current_agent = 1,
           selected_agent = PyStr ''a''\<rparr>"
  let ?h = "\<lparr>agent_order2 = [''manager'', ''workstation_0'', ''coordination''], manager_index2 = 0,
           workstation_indices2 = [1], coordination_index2 = 2, current_index2 = 3,
           selected_agent2 = Some ''workstation_0''\<rparr>"
  let ?d = "\<lparr>agent_order3 = [''manager'', ''workstation_0'', ''workstation_1'', ''coordination''],
           manager_index3 = 0, workstation_indices3 = [1, 2], coordination_index3 = 3,
           current_index3 = 1, selected_agent3 = Some ''workstation_0'',
           previous_agents_in_cycle_indices = [1, 3]\<rparr>"
  have e1: "AgentSelector_drive [PyStr ''a'', PyStr ''b''] [Reset1, Next1, Next1]
      = Inr ([PyStr ''a'', PyStr ''b'', PyStr ''a''], ?f)"
    by (simp add: AgentSelector_drive_def AgentSelector_run_def AgentSelector_init_def
        AgentSelector_reinit_def AgentSelector_reset_def AgentSelector_next_def
        py_mod_def py_getitem_def)
  have e2: "AgentSelector2_drive [''manager'', ''workstation_0'', ''coordination'']
      [Reset2, Next2 False False [], Next2 False False [], Next2 False False []]
      = Inr ([Some ''manager'', Some ''workstation_0'', Some ''coordination'',
              Some ''workstation_0''], ?h)"
    by (simp add: sel_defs)
  have e3: "AgentSelector3_drive [''manager'', ''workstation_0'', ''workstation_1'', ''coordination'']
      [Reset3, Next3 False [1, 0]] = Inr ([Some ''manager'', Some ''workstation_0''], ?d)"
    by (simp add: sel_defs)
  note pb = position_bounds [of "[PyStr ''a'', PyStr ''b'']" "[Reset1, Next1, Next1]"
      "[PyStr ''a'', PyStr ''b'', PyStr ''a'']" ?f
      "[''manager'', ''workstation_0'', ''coordination'']"
      "[Reset2, Next2 False False [], Next2 False False [], Next2 False False []]"
      "[Some ''manager'', Some ''workstation_0'', Some ''coordination'', Some ''workstation_0'']" ?h
      False "[]" False
      "[''manager'', ''workstation_0'', ''workstation_1'', ''coordination'']"
      "[Reset3, Next3 False [1, 0]]" "[Some ''manager'', Some ''workstation_0'']" ?d "[1, 0]"]
  have ne: "agent_order ?f \<noteq> []" by simp
  have c1: "current_agent ?f < int (length (agent_order ?f))"
    using pb [THEN conjunct1, THEN mp, OF e1, THEN conjunct2, THEN mp, OF ne] .
  have nm: "\<not> (False \<and> ''manager'' \<in> set ([] :: string list))" by simp
  from pb [THEN conjunct2, THEN conjunct1, THEN mp, OF e2, THEN conjunct2, THEN mp, OF nm]
  obtain a h' where "AgentSelector2_next ?h False False [] = Inr (a, h')"
    and "current_index2 h' = current_index2 ?h + 1"
    by auto
  then have c2: "\<exists>a h'. AgentSelector2_next ?h False False [] = Inr (a, h') \<and> current_index2 h' = 4"
    by (intro exI [of _ a] exI [of _ h']) simp
  have len: "length (workstation_indices3 ?d) \<le> length [1, 0 :: int]" by simp
  from pb [THEN conjunct2, THEN conjunct2, THEN mp, OF e3, THEN conjunct2, THEN mp, OF len]
  obtain active a d' where act: "active_workstation_indices ?d [1, 0] = Inr active"
    and n: "AgentSelector3_next ?d False [1, 0] = Inr (a, d')"
    and c: "current_index3 d' =
      (if agents_in_cycle_indices ?d active = previous_agents_in_cycle_indices ?d
       then current_index3 ?d + 1 else 1)"
    by auto
  have "active_workstation_indices ?d [1, 0] = Inr [1]" by (simp add: sel_defs)
  with act have "active = [1]" by simp
  with c have "current_index3 d' = 2" by (simp add: agents_in_cycle_indices_def)
  with n have c3: "\<exists>a d'. AgentSelector3_next ?d False [1, 0] = Inr (a, d') \<and> current_index3 d' = 2"
    by (intro exI [of _ a] exI [of _ d']) simp
  show ?thesis
    by (intro conjI) (rule e1, rule c1, rule e2, rule c2, rule e3, rule c3)
qed

section \<open>First and last\<close>

text \<open>
  The docstrings name the manager the first agent of the cycle and the coordination agent
  the last one. What holds of \<^verbatim>\<open>is_first\<close> and \<^verbatim>\<open>is_last\<close>: in the fixed-order and the
  dynamic cycler \<^verbatim>\<open>is_first()\<close> is true right after \<^verbatim>\<open>reset()\<close>; \<^verbatim>\<open>is_last()\<close> is true
  right after a call that returned the last element of the order (fixed-order cycler) or
  the coordination agent (the other two); and the two are never true together when the
  order is duplicate-free with more than one element.
\<close>

lemma AgentSelector_reset_is_first:
  assumes "agent_order f \<noteq> []"
  shows "\<exists>f'. AgentSelector_reset f = Inr (hd (agent_order f), f') \<and>
           AgentSelector_is_first f' = Inr True"
proof -
  let ?r = "AgentSelector_reinit f (agent_order f)"
  have "0 < length (agent_order ?r)" and "current_agent ?r = int 0"
    using assms by (simp_all add: AgentSelector_reinit_def)
  from AgentSelector_next_at [OF this]
  have "AgentSelector_next ?r = Inr (agent_order ?r ! 0,
          ?r\<lparr>current_agent := int (Suc 0 mod length (agent_order ?r)),
             selected_agent := agent_order ?r ! 0\<rparr>)" .
  moreover have "agent_order ?r = agent_order f" by (simp add: AgentSelector_reinit_def)
  ultimately show ?thesis
    using assms
    by (simp add: AgentSelector_reset_def AgentSelector_is_first_def py_getitem_def hd_conv_nth)
qed

lemma AgentSelector3_reset_is_first:
  assumes "roles_ok3 d"
  shows "\<exists>d'. AgentSelector3_reset d = Inr (''manager'', d') \<and> AgentSelector3_is_first d'"
  using roles_ok3_manager [OF assms]
  by (simp add: AgentSelector3_reset_def AgentSelector3_is_first_def)

lemma AgentSelector_next_last_is_last:
  assumes "AgentSelector_next f = Inr (a, f')"
    and "py_getitem (agent_order f) (- 1) = Inr a"
  shows "AgentSelector_is_last f' = Inr True"
  using assms
  by (auto simp: AgentSelector_next_def AgentSelector_is_last_def split: sum.splits)

lemma AgentSelector2_next_coordination_is_last:
  assumes "roles_ok2 h"
    and "AgentSelector2_next h manager_act coordination_act active_agents = Inr (''coordination'', h')"
  shows "AgentSelector2_is_last h' = Inr True"
proof -
  from assms(2) have "agent_order2 h' = agent_order2 h"
    "coordination_index2 h' = coordination_index2 h"
    "selected_agent2 h' = Some ''coordination''"
    by (auto simp: AgentSelector2_next_def Let_def split: sum.splits if_splits)
  then show ?thesis
    using roles_ok2_coordination [OF assms(1)] by (simp add: AgentSelector2_is_last_def)
qed

lemma AgentSelector3_next_coordination_is_last:
  assumes "AgentSelector3_next d manager_act workstation_act = Inr (Some ''coordination'', d')"
  shows "AgentSelector3_is_last d'"
  using assms
  by (auto simp: AgentSelector3_next_def AgentSelector3_is_last_def Let_def
      split: sum.splits if_splits)

lemma AgentSelector_first_last_exclusive:
  assumes "distinct (agent_order f)" and "1 < length (agent_order f)"
  shows "\<not> (AgentSelector_is_first f = Inr True \<and> AgentSelector_is_last f = Inr True)"
proof
  assume both: "AgentSelector_is_first f = Inr True \<and> AgentSelector_is_last f = Inr True"
  let ?xs = "agent_order f"
  have ne: "?xs \<noteq> []" using assms(2) by auto
  have "py_getitem ?xs 0 = Inr (?xs ! 0)" using ne by (simp add: py_getitem_def)
  moreover have "py_getitem ?xs (- 1) = Inr (last ?xs)" using ne by (rule py_getitem_last)
  ultimately have "?xs ! 0 = last ?xs"
    using both by (auto simp: AgentSelector_is_first_def AgentSelector_is_last_def)
  then have "?xs ! 0 = ?xs ! (length ?xs - 1)" using ne by (simp add: last_conv_nth)
  moreover have "0 < length ?xs" "length ?xs - 1 < length ?xs" using assms(2) by auto
  ultimately have "0 = length ?xs - 1"
    using assms(1) nth_eq_iff_index_eq [of ?xs 0 "length ?xs - 1"] by simp
  then show False using assms(2) by simp
qed

lemma AgentSelector2_first_last_exclusive:
  assumes "roles_ok2 h"
  shows "\<not> (AgentSelector2_is_first h = Inr True \<and> AgentSelector2_is_last h = Inr True)"
  using roles_ok2_manager [OF assms] roles_ok2_coordination [OF assms]
  by (auto simp: AgentSelector2_is_first_def AgentSelector2_is_last_def)

lemma AgentSelector3_first_last_exclusive:
  "\<not> (AgentSelector3_is_first d \<and> AgentSelector3_is_last d)"
  by (auto simp: AgentSelector3_is_first_def AgentSelector3_is_last_def)

text \<open>
  C8 (first/last consistency) fails in the hierarchical cycler: \<^verbatim>\<open>AgentSelector2.reset\<close>
  returns the manager without storing it in \<^verbatim>\<open>selected_agent\<close>. On a new selector
  \<^verbatim>\<open>is_first()\<close> is false right after \<^verbatim>\<open>reset()\<close>; after a \<^verbatim>\<open>next\<close> that returned the
  coordination agent, \<^verbatim>\<open>reset()\<close> leaves \<^verbatim>\<open>is_first()\<close> false and \<^verbatim>\<open>is_last()\<close> true. The
  dynamic cycler's \<^verbatim>\<open>reset\<close> stores the manager, and there \<^verbatim>\<open>is_first()\<close> is true.
\<close>

theorem AgentSelector2_reset_not_first:
  "AgentSelector2_drive [''manager'', ''workstation_0'', ''coordination''] [Reset2]
   = Inr ([Some ''manager''],
          \<lparr>agent_order2 = [''manager'', ''workstation_0'', ''coordination''], manager_index2 = 0,
           workstation_indices2 = [1], coordination_index2 = 2, current_index2 = 0,
           selected_agent2 = None\<rparr>) \<and>
   AgentSelector2_is_first
     \<lparr>agent_order2 = [''manager'', ''workstation_0'', ''coordination''], manager_index2 = 0,
      workstation_indices2 = [1], coordination_index2 = 2, current_index2 = 0,
      selected_agent2 = None\<rparr> = Inr False \<and>
   AgentSelector2_drive [''manager'', ''workstation_0'', ''coordination'']
     [Reset2, Next2 False False [], Next2 False False [], Reset2]
   = Inr ([Some ''manager'', Some ''workstation_0'', Some ''coordination'', Some ''manager''],
          \<lparr>agent_order2 = [''manager'', ''workstation_0'', ''coordination''], manager_index2 = 0,
           workstation_indices2 = [1], coordination_index2 = 2, current_index2 = 0,
           selected_agent2 = Some ''coordination''\<rparr>) \<and>
   AgentSelector2_is_first
     \<lparr>agent_order2 = [''manager'', ''workstation_0'', ''coordination''], manager_index2 = 0,
      workstation_indices2 = [1], coordination_index2 = 2, current_index2 = 0,
      selected_agent2 = Some ''coordination''\<rparr> = Inr False \<and>
   AgentSelector2_is_last
     \<lparr>agent_order2 = [''manager'', ''workstation_0'', ''coordination''], manager_index2 = 0,
      workstation_indices2 = [1], coordination_index2 = 2, current_index2 = 0,
      selected_agent2 = Some ''coordination''\<rparr> = Inr True \<and>
   AgentSelector3_drive [''manager'', ''workstation_0'', ''coordination''] [Reset3]
   = Inr ([Some ''manager''],
          \<lparr>agent_order3 = [''manager'', ''workstation_0'', ''coordination''], manager_index3 = 0,
           workstation_indices3 = [1], coordination_index3 = 2, current_index3 = 0,
           selected_agent3 = Some ''manager'', previous_agents_in_cycle_indices = []\<rparr>) \<and>
   AgentSelector3_is_first
     \<lparr>agent_order3 = [''manager'', ''workstation_0'', ''coordination''], manager_index3 = 0,
      workstation_indices3 = [1], coordination_index3 = 2, current_index3 = 0,
      selected_agent3 = Some ''manager'', previous_agents_in_cycle_indices = []\<rparr> = True"
  by (simp add: sel_defs AgentSelector2_is_first_def AgentSelector2_is_last_def
      AgentSelector3_is_first_def)

text \<open>
  In the dynamic cycler's fallback cycle the index list ends with the manager:
  \<^verbatim>\<open>is_last()\<close> stays tied to the coordination agent there, and after the manager closes
  the fallback list \<^verbatim>\<open>is_first()\<close> is true and \<^verbatim>\<open>is_last()\<close> false.
\<close>

lemma AgentSelector3_fallback_ends_with_manager:
  "AgentSelector3_drive [''manager'', ''workstation_0'', ''coordination'']
     [Reset3, Next3 False [0], Next3 False [0], Next3 False [0]]
   = Inr ([Some ''manager'', Some ''workstation_0'', Some ''coordination'', Some ''manager''],
          \<lparr>agent_order3 = [''manager'', ''workstation_0'', ''coordination''], manager_index3 = 0,
           workstation_indices3 = [1], coordination_index3 = 2, current_index3 = 3,
           selected_agent3 = Some ''manager'',
           previous_agents_in_cycle_indices = [1, 2, 0]\<rparr>) \<and>
   AgentSelector3_is_last
     \<lparr>agent_order3 = [''manager'', ''workstation_0'', ''coordination''], manager_index3 = 0,
      workstation_indices3 = [1], coordination_index3 = 2, current_index3 = 3,
      selected_agent3 = Some ''manager'',
      previous_agents_in_cycle_indices = [1, 2, 0]\<rparr> = False"
  by (simp add: sel_defs AgentSelector3_is_last_def)

end
